theory Spec2Isabelle
  imports Main
begin

section \<open>The launcher \<^verbatim>\<open>python.c\<close>: a shallow embedding of its \<^verbatim>\<open>main\<close>\<close>

text \<open>
  The program is one C function, \<^verbatim>\<open>main\<close>, that runs five phases in a row: it fixes up
  the process environment, opens the runtime library and binds nine symbols, builds the
  module search path and six bootstrap statements, decodes the command line, and calls
  \<^verbatim>\<open>Py_Main\<close>. Everything it does is an effect on the process (environment, locale,
  standard error) or a call through a pointer into the runtime library. The model threads
  a record of that process state through the phases, records every call into the runtime
  in order, and takes the answers of the outside world (the dynamic loader, the runtime)
  from a record of oracles, so that a theorem about every platform is a theorem about
  every answer the program can receive.

  Idealisations, all outside what the program itself decides: allocation
  (\<^verbatim>\<open>PyMem_RawMalloc\<close>, \<^verbatim>\<open>strdup\<close>, \<^verbatim>\<open>setenv\<close>) does not run out of memory;
  the runtime's entry points do not change the environment variables; the value handed
  to \<^verbatim>\<open>exit\<close> or returned from \<^verbatim>\<open>main\<close> is the exit status (the operating system's
  truncation to eight bits is not part of the program).
\<close>

subsection \<open>Data\<close>

text \<open>A \<^verbatim>\<open>wchar_t\<close> string is the list of its code points; \<open>wide\<close> is a literal \<^verbatim>\<open>L"..."\<close>.\<close>

type_synonym wstring = "nat list"

definition wide :: "string \<Rightarrow> wstring" where
  "wide s = map of_char s"

text \<open>
  An element of a \<^verbatim>\<open>wchar_t **\<close> array: not yet written since \<^verbatim>\<open>PyMem_RawMalloc\<close>
  returned the block, the null pointer, or a pointer to a decoded string.
\<close>

datatype slot = Uninit | Null | Ptr wstring

fun slot_of :: "wstring option \<Rightarrow> slot" where
  "slot_of None = Null"
| "slot_of (Some w) = Ptr w"

datatype block = Argv_copy | Argv_copy2

text \<open>
  The calls through the nine resolved pointers, each with its arguments and, where the
  function returns one, the value it returned.
\<close>

datatype event =
    SetProgramName wstring
  | DecodeLocale string "wstring option"
  | SetPath "wstring option"
  | Initialize
  | EvalInitThreads
  | SimpleString string int
  | RawMalloc nat
  | PyMain nat "slot list" int
  | RawFree slot
  | RawFreeBlock block

text \<open>
  How the process ends: \<^verbatim>\<open>exit(n)\<close> or \<^verbatim>\<open>return n\<close> from \<^verbatim>\<open>main\<close>, or a fault where
  C leaves the behaviour undefined (a null pointer handed to \<^verbatim>\<open>setenv\<close> as the value or
  to \<^verbatim>\<open>snprintf\<close> for \<^verbatim>\<open>%s\<close>; the C libraries of Linux and Android dereference it).
\<close>

datatype outcome = Exited int | Fault

record state =
  environ :: "string \<rightharpoonup> string"
  lc_all :: string
  err :: string
  calls :: "event list"
  handle :: "nat option"

text \<open>
  The outside world. \<open>dlopen\<close> answers a path (or the null pointer, when \<^verbatim>\<open>EXEPATH\<close>
  is unset) with a non-null handle or with the message \<^verbatim>\<open>dlerror\<close> then returns;
  \<open>dlsym\<close> answers with the message \<^verbatim>\<open>dlerror\<close> returns after the lookup, \<open>None\<close> when
  there is no error. \<open>decode_result\<close> is \<^verbatim>\<open>Py_DecodeLocale\<close> under a given locale;
  \<open>string_result\<close> and \<open>main_result\<close> are the values \<^verbatim>\<open>PyRun_SimpleString\<close> and
  \<^verbatim>\<open>Py_Main\<close> return, which may depend on every call made so far; \<open>locale_after\<close> is
  the locale an interpreter call leaves behind; \<open>native_locale\<close> is the locale that
  \<^verbatim>\<open>setlocale(LC_ALL, "")\<close> selects; \<open>ptr_size\<close> is \<^verbatim>\<open>sizeof(wchar_t *)\<close>.
\<close>

record platform =
  dlopen :: "string option \<Rightarrow> string + nat"
  dlsym :: "nat \<Rightarrow> string \<Rightarrow> string option"
  decode_result :: "string \<Rightarrow> string \<Rightarrow> wstring option"
  string_result :: "event list \<Rightarrow> string \<Rightarrow> int"
  main_result :: "event list \<Rightarrow> nat \<Rightarrow> slot list \<Rightarrow> int"
  locale_after :: "event \<Rightarrow> string \<Rightarrow> string"
  native_locale :: string
  ptr_size :: nat

text \<open>A phase either ends the process, with an outcome and the final state, or goes on.\<close>

type_synonym 'a step = "(outcome \<times> state) + 'a"

subsection \<open>The C library\<close>

definition getenv :: "state \<Rightarrow> string \<Rightarrow> string option" where
  "getenv s name = environ s name"

text \<open>\<^verbatim>\<open>setenv(name, value, 1)\<close>; a null \<open>value\<close> is undefined behaviour.\<close>

definition setenv :: "string \<Rightarrow> string option \<Rightarrow> state \<Rightarrow> state step" where
  "setenv name v s =
     (case v of
        None \<Rightarrow> Inl (Fault, s)
      | Some x \<Rightarrow> Inr (s\<lparr>environ := (environ s)(name \<mapsto> x)\<rparr>))"

definition fputs :: "string \<Rightarrow> state \<Rightarrow> state" where
  "fputs msg s = s\<lparr>err := err s @ msg\<rparr>"

text \<open>
  \<^verbatim>\<open>snprintf(buf, n, ...)\<close> on the already formatted text: at most \<open>n - 1\<close> characters
  are stored, the rest is dropped, and nothing is reported (the program ignores the
  return value).
\<close>

definition snprintf :: "nat \<Rightarrow> string \<Rightarrow> string" where
  "snprintf n formatted = take (n - 1) formatted"

definition setlocale :: "string \<Rightarrow> state \<Rightarrow> state" where
  "setlocale l s = s\<lparr>lc_all := l\<rparr>"

definition dlclose :: "state \<Rightarrow> state" where
  "dlclose s = s\<lparr>handle := None\<rparr>"

text \<open>The conversion \<^verbatim>\<open>%i\<close> of a non-negative number.\<close>

definition digit :: "nat \<Rightarrow> char" where
  "digit d = char_of (48 + d)"

function show_nat :: "nat \<Rightarrow> string" where
  "show_nat n = (if n < 10 then [digit n] else show_nat (n div 10) @ [digit (n mod 10)])"
  by pat_completeness auto
termination
  by (relation "measure id") auto

declare show_nat.simps [simp del]

text \<open>Reading a decimal numeral back, to say what a printed number identifies.\<close>

definition decimal_value :: "string \<Rightarrow> nat" where
  "decimal_value s = foldl (\<lambda>v c. 10 * v + (of_char c - 48)) 0 s"

subsection \<open>Calls into the runtime\<close>

text \<open>
  A call that runs interpreter code is recorded and may leave another locale behind
  (\<^verbatim>\<open>Py_Initialize\<close> does). The allocator and \<^verbatim>\<open>Py_DecodeLocale\<close> are recorded only:
  they read the locale and do not set it.
\<close>

definition call :: "platform \<Rightarrow> event \<Rightarrow> state \<Rightarrow> state" where
  "call p e s = s\<lparr>calls := calls s @ [e], lc_all := locale_after p e (lc_all s)\<rparr>"

definition note_call :: "event \<Rightarrow> state \<Rightarrow> state" where
  "note_call e s = s\<lparr>calls := calls s @ [e]\<rparr>"

definition pyDecodeLocale :: "platform \<Rightarrow> string \<Rightarrow> state \<Rightarrow> wstring option \<times> state" where
  "pyDecodeLocale p arg s =
     (let r = decode_result p (lc_all s) arg in (r, note_call (DecodeLocale arg r) s))"

definition pySimpleString :: "platform \<Rightarrow> string \<Rightarrow> state \<Rightarrow> int \<times> state" where
  "pySimpleString p stmt s =
     (let r = string_result p (calls s) stmt in (r, call p (SimpleString stmt r) s))"

definition pyMain :: "platform \<Rightarrow> nat \<Rightarrow> slot list \<Rightarrow> state \<Rightarrow> int \<times> state" where
  "pyMain p argc argv s =
     (let r = main_result p (calls s) argc argv in (r, call p (PyMain argc argv r) s))"

subsection \<open>Phase 1: the environment (lines 32 to 47)\<close>

text \<open>
  The reads of \<^verbatim>\<open>WAIT_FOR_EXIT\<close> and \<^verbatim>\<open>ANDROID_ENTRYPOINT\<close> (lines 36 and 39) are
  left out: \<^verbatim>\<open>getenv\<close> changes nothing and the values are never used. The result is
  \<^verbatim>\<open>exePath\<close>, the one value the later phases take from here besides the environment.
\<close>

definition resolver :: "state \<Rightarrow> (string option \<times> state) step" where
  "resolver s0 =
     (case setenv ''P4A_BOOTSTRAP'' (Some ''SDL2'') s0 of
        Inl r \<Rightarrow> Inl r
      | Inr s1 \<Rightarrow>
          let env_argument = getenv s1 ''ANDROID_ARGUMENT'';
              exePath = getenv s1 ''EXEPATH''
          in (case setenv ''ANDROID_APP_PATH'' env_argument s1 of
                Inl r \<Rightarrow> Inl r
              | Inr s2 \<Rightarrow>
                  let env_logname = getenv s2 ''PYTHON_NAME''
                  in (case (if getenv s2 ''ANDROID_UNPACK'' = None
                            then setenv ''ANDROID_UNPACK'' env_argument s2
                            else Inr s2) of
                        Inl r \<Rightarrow> Inl r
                      | Inr s3 \<Rightarrow>
                          (case (if env_logname = None
                                 then setenv ''PYTHON_NAME'' (Some ''python'') s3
                                 else Inr s3) of
                             Inl r \<Rightarrow> Inl r
                           | Inr s4 \<Rightarrow> Inr (exePath, s4)))))"

subsection \<open>Phase 2: the library and its symbols (lines 61 to 119)\<close>

definition symbols :: "string list" where
  "symbols =
     [''Py_SetProgramName'', ''Py_DecodeLocale'', ''Py_SetPath'', ''Py_Initialize'',
      ''PyEval_InitThreads'', ''PyRun_SimpleString'', ''PyMem_RawMalloc'',
      ''PyMem_RawFree'', ''Py_Main'']"

text \<open>
  The nine blocks \<^verbatim>\<open>p = dlsym(handle, name); if ((error = dlerror()) != NULL) { fputs(error,
  stderr); exit(1); }\<close>, in the order of the source.
\<close>

fun bind_symbols :: "platform \<Rightarrow> nat \<Rightarrow> string list \<Rightarrow> state \<Rightarrow> state step" where
  "bind_symbols p h [] s = Inr s"
| "bind_symbols p h (name # names) s =
     (case dlsym p h name of
        Some error \<Rightarrow> Inl (Exited 1, fputs error s)
      | None \<Rightarrow> bind_symbols p h names s)"

definition loader :: "platform \<Rightarrow> string option \<Rightarrow> state \<Rightarrow> state step" where
  "loader p exePath s =
     (case dlopen p exePath of
        Inl error \<Rightarrow> Inl (Exited 1, fputs error s)
      | Inr h \<Rightarrow> bind_symbols p h symbols (s\<lparr>handle := Some h\<rparr>))"

subsection \<open>Phase 3: the search path and the bootstrap statements (lines 121 to 167)\<close>

text \<open>The five formatted buffers, each \<^verbatim>\<open>char[256]\<close>, by the names of the source.\<close>

definition python_bundle_dir :: "string \<Rightarrow> string" where
  "python_bundle_dir unpack = snprintf 256 (unpack @ ''/_python_bundle'')"

definition paths :: "string \<Rightarrow> string" where
  "paths bundle_dir = snprintf 256 (bundle_dir @ ''/stdlib.zip:'' @ bundle_dir @ ''/modules'')"

definition add_site_packages_dir :: "string \<Rightarrow> string" where
  "add_site_packages_dir bundle_dir =
     snprintf 256 (''sys.path.append('' @ [CHR 0x27] @ bundle_dir @ ''/site-packages')'')"

definition add_lib_path :: "string \<Rightarrow> string" where
  "add_lib_path unpack =
     snprintf 256
       (''sys.path.append('' @ [CHR 0x27] @ unpack @ ''/lib/python3.8/site-packages')'')"

definition add_prefix :: "string \<Rightarrow> string" where
  "add_prefix unpack = snprintf 256 (''sys.prefix = '' @ [CHR 0x27] @ unpack @ [CHR 0x27])"

definition preamble :: string where
  "preamble =
     ''import sys\<newline>sys.argv = ['notaninterpreterreally']\<newline>from os.path import realpath, join, dirname''"

text \<open>
  \<^verbatim>\<open>ANDROID_UNPACK\<close> is read three times (lines 128, 155 and 159); each read that found
  it unset would hand a null pointer to \<^verbatim>\<open>%s\<close>.
\<close>

definition path_builder :: "platform \<Rightarrow> state \<Rightarrow> state step" where
  "path_builder p s0 =
     (let s1 = call p (SetProgramName (wide ''android_python'')) s0 in
      case getenv s1 ''ANDROID_UNPACK'' of
        None \<Rightarrow> Inl (Fault, s1)
      | Some unpack1 \<Rightarrow>
          let bundle_dir = python_bundle_dir unpack1;
              (wchar_paths, s2) = pyDecodeLocale p (paths bundle_dir) s1;
              s3 = call p (SetPath wchar_paths) s2;
              s4 = call p Initialize s3;
              s5 = call p EvalInitThreads s4;
              s6 = snd (pySimpleString p ''import sys, posix\<newline>'' s5)
          in (case getenv s6 ''ANDROID_UNPACK'' of
                None \<Rightarrow> Inl (Fault, s6)
              | Some unpack2 \<Rightarrow>
                  (case getenv s6 ''ANDROID_UNPACK'' of
                     None \<Rightarrow> Inl (Fault, s6)
                   | Some unpack3 \<Rightarrow>
                       let s7 = snd (pySimpleString p preamble s6);
                           s8 = snd (pySimpleString p (add_prefix unpack3) s7);
                           s9 = snd (pySimpleString p (add_site_packages_dir bundle_dir) s8);
                           s10 = snd (pySimpleString p (add_lib_path unpack2) s9);
                           s11 = snd (pySimpleString p ''sys.path = ['.'] + sys.path'' s10)
                       in Inr s11)))"

subsection \<open>Phase 4: the command line (lines 171 to 189)\<close>

definition decode_failure :: "nat \<Rightarrow> string" where
  "decode_failure i =
     ''Fatal Python error: unable to decode the command line argument #''
       @ show_nat (i + 1) @ ''\<newline>''"

text \<open>
  The loop of lines 177 to 186. On a failed decode the saved locale name is freed and the
  process exits; \<^verbatim>\<open>setlocale\<close> is not called on that path.
\<close>

function marshal_loop ::
  "platform \<Rightarrow> string list \<Rightarrow> nat \<Rightarrow> slot list \<times> slot list \<Rightarrow> state
     \<Rightarrow> (slot list \<times> slot list \<times> state) step" where
  "marshal_loop p argv i (argv_copy, argv_copy2) s =
     (if i < length argv then
        (case pyDecodeLocale p (argv ! i) s of
           (None, s1) \<Rightarrow> Inl (Exited 1, fputs (decode_failure i) s1)
         | (Some w, s1) \<Rightarrow>
             marshal_loop p argv (i + 1) (argv_copy[i := Ptr w], argv_copy2[i := Ptr w]) s1)
      else Inr (argv_copy, argv_copy2, s))"
  by pat_completeness auto
termination
  by (relation "measure (\<lambda>(p, argv, i, a, s). length argv - i)") auto

declare marshal_loop.simps [simp del]

definition marshaler :: "platform \<Rightarrow> string list \<Rightarrow> state \<Rightarrow> (slot list \<times> slot list \<times> state) step" where
  "marshaler p argv s0 =
     (let argc = length argv;
          s1 = note_call (RawMalloc (ptr_size p * (argc + 1))) s0;
          s2 = note_call (RawMalloc (ptr_size p * (argc + 1))) s1;
          oldloc = lc_all s2;
          s3 = setlocale (native_locale p) s2
      in case marshal_loop p argv 0 (replicate (argc + 1) Uninit, replicate (argc + 1) Uninit) s3 of
           Inl r \<Rightarrow> Inl r
         | Inr (argv_copy, argv_copy2, s4) \<Rightarrow>
             Inr (argv_copy[argc := Null], argv_copy2[argc := Null], setlocale oldloc s4))"

subsection \<open>Phase 5: the entry point and the teardown (lines 191 to 204)\<close>

text \<open>
  The strings are freed through the second array, the blocks after them; \<open>handle\<close> holds
  what \<^verbatim>\<open>dlopen\<close> returned, so the test of line 200 succeeds in every run that gets here.
\<close>

definition invoker :: "platform \<Rightarrow> nat \<Rightarrow> slot list \<Rightarrow> slot list \<Rightarrow> state \<Rightarrow> outcome \<times> state" where
  "invoker p argc argv_copy argv_copy2 s0 =
     (let (ret, s1) = pyMain p argc argv_copy s0;
          s2 = foldl (\<lambda>s i. note_call (RawFree (argv_copy2 ! i)) s) s1 [0..<argc];
          s3 = note_call (RawFreeBlock Argv_copy) s2;
          s4 = note_call (RawFreeBlock Argv_copy2) s3;
          s5 = (if handle s4 \<noteq> None then dlclose s4 else s4)
      in (Exited ret, s5))"

subsection \<open>The program\<close>

text \<open>At program startup the locale is \<^verbatim>\<open>"C"\<close>, nothing has been written or called.\<close>

definition startup :: "(string \<rightharpoonup> string) \<Rightarrow> state" where
  "startup env0 = \<lparr>environ = env0, lc_all = ''C'', err = [], calls = [], handle = None\<rparr>"

definition run :: "platform \<Rightarrow> string list \<Rightarrow> state \<Rightarrow> outcome \<times> state" where
  "run p argv s0 =
     (case resolver s0 of
        Inl r \<Rightarrow> r
      | Inr (exePath, s1) \<Rightarrow>
          (case loader p exePath s1 of
             Inl r \<Rightarrow> r
           | Inr s2 \<Rightarrow>
               (case path_builder p s2 of
                  Inl r \<Rightarrow> r
                | Inr s3 \<Rightarrow>
                    (case marshaler p argv s3 of
                       Inl r \<Rightarrow> r
                     | Inr (argv_copy, argv_copy2, s4) \<Rightarrow>
                         invoker p (length argv) argv_copy argv_copy2 s4))))"

definition main :: "platform \<Rightarrow> string list \<Rightarrow> (string \<rightharpoonup> string) \<Rightarrow> outcome \<times> state" where
  "main p argv env0 = run p argv (startup env0)"

subsection \<open>Reading a run\<close>

text \<open>The statements handed to \<^verbatim>\<open>PyRun_SimpleString\<close>, in order, each with its result.\<close>

fun statement :: "event \<Rightarrow> (string \<times> int) list" where
  "statement (SimpleString stmt r) = [(stmt, r)]"
| "statement e = []"

definition statements :: "event list \<Rightarrow> (string \<times> int) list" where
  "statements history = concat (map statement history)"

fun is_PyMain :: "event \<Rightarrow> bool" where
  "is_PyMain (PyMain argc argv r) = True"
| "is_PyMain e = False"

text \<open>
  Every result recorded in a history is the platform's answer to that call after the
  calls before it; \<open>quiet\<close> events are those that record no such result.
\<close>

definition answered :: "platform \<Rightarrow> event list \<Rightarrow> bool" where
  "answered p history \<longleftrightarrow>
     (\<forall>i<length history.
        (\<forall>stmt r. history ! i = SimpleString stmt r
           \<longrightarrow> r = string_result p (take i history) stmt)
      \<and> (\<forall>argc argv r. history ! i = PyMain argc argv r
           \<longrightarrow> r = main_result p (take i history) argc argv))"

fun quiet :: "event \<Rightarrow> bool" where
  "quiet (SimpleString stmt r) = False"
| "quiet (PyMain argc argv r) = False"
| "quiet e = True"

text \<open>The state in which a phase leaves the process, whether it ended it or not.\<close>

definition resolver_state :: "(string option \<times> state) step \<Rightarrow> state" where
  "resolver_state r = (case r of Inl (out, s) \<Rightarrow> s | Inr (x, s) \<Rightarrow> s)"

definition marshaler_state :: "(slot list \<times> slot list \<times> state) step \<Rightarrow> state" where
  "marshaler_state r = (case r of Inl (out, s) \<Rightarrow> s | Inr (a, a2, s) \<Rightarrow> s)"

text \<open>
  The unpack root a run works with: \<^verbatim>\<open>ANDROID_UNPACK\<close>, or \<^verbatim>\<open>ANDROID_ARGUMENT\<close>
  when the first is unset (lines 41 to 43).
\<close>

definition unpack_root :: "(string \<rightharpoonup> string) \<Rightarrow> string option" where
  "unpack_root env0 =
     (case env0 ''ANDROID_UNPACK'' of None \<Rightarrow> env0 ''ANDROID_ARGUMENT'' | Some u \<Rightarrow> Some u)"

text \<open>The library at \<^verbatim>\<open>EXEPATH\<close> opens with handle \<open>h\<close> and has all nine symbols.\<close>

definition loads :: "platform \<Rightarrow> (string \<rightharpoonup> string) \<Rightarrow> nat \<Rightarrow> bool" where
  "loads p env0 h \<longleftrightarrow>
     dlopen p (env0 ''EXEPATH'') = Inr h \<and> (\<forall>name\<in>set symbols. dlsym p h name = None)"

text \<open>Every argument decodes under the native locale, the one in force during the loop.\<close>

definition decodes :: "platform \<Rightarrow> string list \<Rightarrow> bool" where
  "decodes p argv \<longleftrightarrow> (\<forall>x\<in>set argv. decode_result p (native_locale p) x \<noteq> None)"

text \<open>Argument \<open>k\<close> is the first that does not decode.\<close>

definition first_failure :: "platform \<Rightarrow> string list \<Rightarrow> nat \<Rightarrow> bool" where
  "first_failure p argv k \<longleftrightarrow>
     k < length argv \<and> decode_result p (native_locale p) (argv ! k) = None
       \<and> (\<forall>j<k. decode_result p (native_locale p) (argv ! j) \<noteq> None)"

text \<open>The calls of a run, phase by phase, for stating what a whole run does.\<close>

definition bootstrap_calls ::
  "string \<Rightarrow> wstring option \<Rightarrow> int \<Rightarrow> int \<Rightarrow> int \<Rightarrow> int \<Rightarrow> int \<Rightarrow> int \<Rightarrow> event list" where
  "bootstrap_calls u w r0 r1 r2 r3 r4 r5 =
     [SetProgramName (wide ''android_python''),
      DecodeLocale (paths (python_bundle_dir u)) w, SetPath w, Initialize, EvalInitThreads,
      SimpleString ''import sys, posix\<newline>'' r0,
      SimpleString preamble r1,
      SimpleString (add_prefix u) r2,
      SimpleString (add_site_packages_dir (python_bundle_dir u)) r3,
      SimpleString (add_lib_path u) r4,
      SimpleString ''sys.path = ['.'] + sys.path'' r5]"

definition marshal_calls :: "platform \<Rightarrow> string list \<Rightarrow> string list \<Rightarrow> event list" where
  "marshal_calls p argv decoded =
     [RawMalloc (ptr_size p * (length argv + 1)), RawMalloc (ptr_size p * (length argv + 1))]
       @ map (\<lambda>x. DecodeLocale x (decode_result p (native_locale p) x)) decoded"

definition teardown_calls :: "nat \<Rightarrow> slot list \<Rightarrow> event list" where
  "teardown_calls argc argv_copy2 =
     map (\<lambda>i. RawFree (argv_copy2 ! i)) [0..<argc]
       @ [RawFreeBlock Argv_copy, RawFreeBlock Argv_copy2]"

subsection \<open>A concrete platform\<close>

text \<open>
  One library, which has every symbol; a decoder that rejects the byte \<^verbatim>\<open>0xFF\<close>; every
  injected statement fails; \<^verbatim>\<open>Py_Main\<close> returns 7; \<^verbatim>\<open>Py_Initialize\<close> sets the locale.
\<close>

definition demo_platform :: platform where
  "demo_platform =
     \<lparr>dlopen = (\<lambda>path. if path = Some ''/data/app-root/lib/libruntime.so'' then Inr 1
                       else Inl ''dlopen failed: library not found''),
      dlsym = (\<lambda>h name. if name \<in> set symbols then None
                         else Some (''undefined symbol: '' @ name)),
      decode_result = (\<lambda>l arg. if CHR 0xFF \<in> set arg then None else Some (wide arg)),
      string_result = (\<lambda>history stmt. - 1),
      main_result = (\<lambda>history argc argv. 7),
      locale_after = (\<lambda>e l. if e = Initialize then ''C.UTF-8'' else l),
      native_locale = ''en_US.UTF-8'',
      ptr_size = 8\<rparr>"

definition demo_env :: "string \<rightharpoonup> string" where
  "demo_env =
     [''ANDROID_ARGUMENT'' \<mapsto> ''/data/app-root'',
      ''EXEPATH'' \<mapsto> ''/data/app-root/lib/libruntime.so'']"

text \<open>The same platform with a library that lacks \<^verbatim>\<open>Py_Main\<close>.\<close>

definition demo_platform_no_main :: platform where
  "demo_platform_no_main =
     demo_platform\<lparr>dlsym := (\<lambda>h name. if name = ''Py_Main''
                                      then Some ''undefined symbol: Py_Main'' else None)\<rparr>"


definition unpack_209 :: string where
  "unpack_209 = CHR ''/'' # replicate 208 (CHR ''u'')"


definition env_209 :: "string \<rightharpoonup> string" where
  "env_209 = demo_env(''ANDROID_UNPACK'' \<mapsto> unpack_209)"

text \<open>An environment without \<^verbatim>\<open>ANDROID_ARGUMENT\<close>, and one whose unpack root does not decode.\<close>

definition env_without_argument :: "string \<rightharpoonup> string" where
  "env_without_argument = [''EXEPATH'' \<mapsto> ''/data/app-root/lib/libruntime.so'']"

definition env_undecodable :: "string \<rightharpoonup> string" where
  "env_undecodable = demo_env(''ANDROID_UNPACK'' \<mapsto> ''/data/'' @ [CHR 0xFF])"

section \<open>Properties of the phases\<close>

subsection \<open>The environment\<close>

lemma resolver_ok:
  assumes "environ s ''ANDROID_ARGUMENT'' = Some a"
  shows "\<exists>s'. resolver s = Inr (environ s ''EXEPATH'', s')
           \<and> environ s' ''ANDROID_UNPACK'' = unpack_root (environ s)
           \<and> lc_all s' = lc_all s \<and> err s' = err s \<and> calls s' = calls s
           \<and> handle s' = handle s"
  using assms
  by (simp add: resolver_def setenv_def getenv_def unpack_root_def Let_def split: option.splits)

lemma resolver_fault:
  assumes "environ s ''ANDROID_ARGUMENT'' = None"
  shows "resolver s = Inl (Fault, s\<lparr>environ := (environ s)(''P4A_BOOTSTRAP'' \<mapsto> ''SDL2'')\<rparr>)"
  using assms by (simp add: resolver_def setenv_def getenv_def Let_def)

lemma resolver_idem:
  assumes "resolver s = Inr (x, s')"
  shows "resolver s' = Inr (x, s')"
  using assms
  by (auto simp add: resolver_def setenv_def getenv_def Let_def fun_upd_idem_iff fun_upd_twist
      split: option.splits if_splits)

subsection \<open>The loader\<close>

lemma bind_symbols_ok:
  "\<forall>n\<in>set names. dlsym p h n = None \<Longrightarrow> bind_symbols p h names s = Inr s"
  by (induction names) auto

lemma bind_symbols_fail:
  "\<exists>n\<in>set names. dlsym p h n \<noteq> None \<Longrightarrow>
     \<exists>n msg. n \<in> set names \<and> dlsym p h n = Some msg
       \<and> bind_symbols p h names s = Inl (Exited 1, fputs msg s)"
  by (induction names) (auto split: option.splits)

subsection \<open>The path builder\<close>

lemma path_builder_ok:
  assumes "environ s ''ANDROID_UNPACK'' = Some u"
  shows "\<exists>w r0 r1 r2 r3 r4 r5 s'. path_builder p s = Inr s'
     \<and> calls s' = calls s @
         [SetProgramName (wide ''android_python''),
          DecodeLocale (paths (python_bundle_dir u)) w, SetPath w, Initialize, EvalInitThreads,
          SimpleString ''import sys, posix\<newline>'' r0,
          SimpleString preamble r1,
          SimpleString (add_prefix u) r2,
          SimpleString (add_site_packages_dir (python_bundle_dir u)) r3,
          SimpleString (add_lib_path u) r4,
          SimpleString ''sys.path = ['.'] + sys.path'' r5]
     \<and> environ s' = environ s \<and> err s' = err s \<and> handle s' = handle s
     \<and> w = decode_result p (locale_after p (SetProgramName (wide ''android_python'')) (lc_all s))
              (paths (python_bundle_dir u))"
  using assms
  by (simp add: path_builder_def getenv_def call_def pyDecodeLocale_def note_call_def
      pySimpleString_def Let_def)

lemma answered_Nil: "answered p []"
  by (simp add: answered_def)

lemma answered_snoc:
  "answered p (xs @ [e]) \<longleftrightarrow>
     answered p xs
     \<and> (\<forall>stmt r. e = SimpleString stmt r \<longrightarrow> r = string_result p xs stmt)
     \<and> (\<forall>argc argv r. e = PyMain argc argv r \<longrightarrow> r = main_result p xs argc argv)"
proof -
  have split: "\<And>P. (\<forall>i<length (xs @ [e]). P i) \<longleftrightarrow> (\<forall>i<length xs. P i) \<and> P (length xs)"
    by (auto simp add: less_Suc_eq)
  show ?thesis
    unfolding answered_def split
    by (simp add: nth_append cong: conj_cong)
qed

lemma answered_append_quiet:
  "answered p xs \<Longrightarrow> \<forall>e\<in>set ys. quiet e \<Longrightarrow> answered p (xs @ ys)"
proof (induction ys rule: rev_induct)
  case Nil
  then show ?case by simp
next
  case (snoc y ys)
  then have "answered p (xs @ ys)" and "quiet y" by simp_all
  then have "answered p ((xs @ ys) @ [y])"
    unfolding answered_snoc by (cases y) simp_all
  then show ?case by simp
qed

lemma quiet_marshal: "\<forall>e\<in>set (marshal_calls p argv xs). quiet e"
  by (auto simp add: marshal_calls_def)

lemma quiet_teardown: "\<forall>e\<in>set (teardown_calls n a). quiet e"
  by (auto simp add: teardown_calls_def)

lemma path_builder_answered:
  assumes "path_builder p s = Inr s'" and "answered p (calls s)"
  shows "answered p (calls s')"
  using assms
  by (auto simp add: path_builder_def getenv_def call_def pyDecodeLocale_def note_call_def
      pySimpleString_def Let_def answered_snoc split: option.splits simp del: append_assoc)

subsection \<open>The marshaling loop\<close>

lemma marshal_loop_ok:
  assumes "\<forall>j. i \<le> j \<and> j < length argv \<longrightarrow> decode_result p (lc_all s) (argv ! j) \<noteq> None"
  shows "\<exists>a' a2'. marshal_loop p argv i (a, a2) s =
            Inr (a', a2', s\<lparr>calls := calls s @
                   map (\<lambda>x. DecodeLocale x (decode_result p (lc_all s) x)) (drop i argv)\<rparr>)
         \<and> length a' = length a \<and> length a2' = length a2
         \<and> (\<forall>j<length a. a' ! j = (if i \<le> j \<and> j < length argv
                 then slot_of (decode_result p (lc_all s) (argv ! j)) else a ! j))
         \<and> (\<forall>j<length a2. a2' ! j = (if i \<le> j \<and> j < length argv
                 then slot_of (decode_result p (lc_all s) (argv ! j)) else a2 ! j))"
  using assms
proof (induction "length argv - i" arbitrary: i a a2 s)
  case 0
  then have "\<not> i < length argv" by simp
  then show ?case by (auto simp add: marshal_loop.simps)
next
  case (Suc n)
  then have lt: "i < length argv" by simp
  with Suc.prems obtain w where w: "decode_result p (lc_all s) (argv ! i) = Some w" by auto
  let ?s1 = "note_call (DecodeLocale (argv ! i) (Some w)) s"
  have loc: "lc_all ?s1 = lc_all s" by (simp add: note_call_def)
  have n: "n = length argv - Suc i" using Suc.hyps(2) by simp
  have pre: "\<forall>j. Suc i \<le> j \<and> j < length argv \<longrightarrow> decode_result p (lc_all ?s1) (argv ! j) \<noteq> None"
    using Suc.prems by (simp add: loc)
  from Suc.hyps(1)[OF n pre, of "a[i := Ptr w]" "a2[i := Ptr w]"]
  obtain a' a2' where
    IH: "marshal_loop p argv (Suc i) (a[i := Ptr w], a2[i := Ptr w]) ?s1 =
            Inr (a', a2', ?s1\<lparr>calls := calls ?s1 @
                   map (\<lambda>x. DecodeLocale x (decode_result p (lc_all ?s1) x)) (drop (Suc i) argv)\<rparr>)"
    and la: "length a' = length a" and la2: "length a2' = length a2"
    and ea: "\<forall>j<length a. a' ! j = (if Suc i \<le> j \<and> j < length argv
                 then slot_of (decode_result p (lc_all ?s1) (argv ! j)) else a[i := Ptr w] ! j)"
    and ea2: "\<forall>j<length a2. a2' ! j = (if Suc i \<le> j \<and> j < length argv
                 then slot_of (decode_result p (lc_all ?s1) (argv ! j)) else a2[i := Ptr w] ! j)"
    by auto
  have step: "marshal_loop p argv i (a, a2) s =
      marshal_loop p argv (Suc i) (a[i := Ptr w], a2[i := Ptr w]) ?s1"
    using lt w by (subst marshal_loop.simps) (simp add: pyDecodeLocale_def Let_def)
  have st: "?s1\<lparr>calls := calls ?s1 @
                   map (\<lambda>x. DecodeLocale x (decode_result p (lc_all ?s1) x)) (drop (Suc i) argv)\<rparr>
        = s\<lparr>calls := calls s @
                   map (\<lambda>x. DecodeLocale x (decode_result p (lc_all s) x)) (drop i argv)\<rparr>"
    using lt w by (simp add: note_call_def Cons_nth_drop_Suc[symmetric])
  have A: "\<forall>j<length a. a' ! j = (if i \<le> j \<and> j < length argv
                 then slot_of (decode_result p (lc_all s) (argv ! j)) else a ! j)"
  proof (intro allI impI)
    fix j assume j: "j < length a"
    show "a' ! j = (if i \<le> j \<and> j < length argv
                 then slot_of (decode_result p (lc_all s) (argv ! j)) else a ! j)"
    proof (cases "j = i")
      case True
      then show ?thesis using ea j w lt by (simp add: loc)
    next
      case False
      then have "(Suc i \<le> j) = (i \<le> j)" by arith
      then show ?thesis using ea j False by (simp add: loc)
    qed
  qed
  have A2: "\<forall>j<length a2. a2' ! j = (if i \<le> j \<and> j < length argv
                 then slot_of (decode_result p (lc_all s) (argv ! j)) else a2 ! j)"
  proof (intro allI impI)
    fix j assume j: "j < length a2"
    show "a2' ! j = (if i \<le> j \<and> j < length argv
                 then slot_of (decode_result p (lc_all s) (argv ! j)) else a2 ! j)"
    proof (cases "j = i")
      case True
      then show ?thesis using ea2 j w lt by (simp add: loc)
    next
      case False
      then have "(Suc i \<le> j) = (i \<le> j)" by arith
      then show ?thesis using ea2 j False by (simp add: loc)
    qed
  qed
  show ?case using step IH st la la2 A A2 by simp
qed

lemma marshal_loop_fail:
  assumes "i \<le> k" and "k < length argv"
    and "\<forall>j. i \<le> j \<and> j < k \<longrightarrow> decode_result p (lc_all s) (argv ! j) \<noteq> None"
    and "decode_result p (lc_all s) (argv ! k) = None"
  shows "marshal_loop p argv i (a, a2) s =
           Inl (Exited 1, fputs (decode_failure k)
                  (s\<lparr>calls := calls s @
                      map (\<lambda>x. DecodeLocale x (decode_result p (lc_all s) x))
                        (take (Suc k - i) (drop i argv))\<rparr>))"
  using assms
proof (induction "k - i" arbitrary: i a a2 s)
  case 0
  then have ik: "i = k" by simp
  have "take (Suc 0) (drop k argv) = [argv ! k]"
    using "0.prems"(2) by (simp add: Cons_nth_drop_Suc[symmetric])
  then show ?case using "0.prems" ik
    by (subst marshal_loop.simps) (simp add: pyDecodeLocale_def Let_def note_call_def)
next
  case (Suc n)
  then have lt: "i < k" by simp
  then have lt2: "i < length argv" using Suc.prems by simp
  with Suc.prems lt obtain w where w: "decode_result p (lc_all s) (argv ! i) = Some w" by auto
  let ?s1 = "note_call (DecodeLocale (argv ! i) (Some w)) s"
  have loc: "lc_all ?s1 = lc_all s" by (simp add: note_call_def)
  have n: "n = k - Suc i" using Suc.hyps(2) by simp
  have IH: "marshal_loop p argv (Suc i) (a[i := Ptr w], a2[i := Ptr w]) ?s1 =
           Inl (Exited 1, fputs (decode_failure k)
                  (?s1\<lparr>calls := calls ?s1 @
                      map (\<lambda>x. DecodeLocale x (decode_result p (lc_all ?s1) x))
                        (take (Suc k - Suc i) (drop (Suc i) argv))\<rparr>))"
    using Suc.prems lt by (intro Suc.hyps(1)[OF n]) (simp_all add: loc)
  have step: "marshal_loop p argv i (a, a2) s =
      marshal_loop p argv (Suc i) (a[i := Ptr w], a2[i := Ptr w]) ?s1"
    using lt2 w by (subst marshal_loop.simps) (simp add: pyDecodeLocale_def Let_def)
  have "Suc k - i = Suc (k - i)" using lt by simp
  then have tk: "take (Suc k - i) (drop i argv) = argv ! i # take (Suc k - Suc i) (drop (Suc i) argv)"
    using lt2 by (simp add: Cons_nth_drop_Suc[symmetric])
  show ?case unfolding step IH tk using w by (simp add: note_call_def)
qed

subsection \<open>The marshaler and the invoker\<close>

lemma marshaler_ok:
  assumes "decodes p argv"
  shows "\<exists>ws s'. map (decode_result p (native_locale p)) argv = map Some ws
     \<and> marshaler p argv s = Inr (map Ptr ws @ [Null], map Ptr ws @ [Null], s')
     \<and> calls s' = calls s @ [RawMalloc (ptr_size p * (length argv + 1)),
                              RawMalloc (ptr_size p * (length argv + 1))]
                     @ map (\<lambda>x. DecodeLocale x (decode_result p (native_locale p) x)) argv
     \<and> lc_all s' = lc_all s \<and> err s' = err s \<and> environ s' = environ s \<and> handle s' = handle s"
proof -
  let ?n = "length argv"
  let ?m = "RawMalloc (ptr_size p * (?n + 1))"
  define s3 where "s3 = setlocale (native_locale p) (note_call ?m (note_call ?m s))"
  have loc: "lc_all s3 = native_locale p" by (simp add: s3_def setlocale_def)
  have dec: "\<forall>j. 0 \<le> j \<and> j < ?n \<longrightarrow> decode_result p (lc_all s3) (argv ! j) \<noteq> None"
    using assms by (simp add: decodes_def loc)
  obtain a' a2' where
    L: "marshal_loop p argv 0 (replicate (?n + 1) Uninit, replicate (?n + 1) Uninit) s3 =
          Inr (a', a2', s3\<lparr>calls := calls s3 @
             map (\<lambda>x. DecodeLocale x (decode_result p (lc_all s3) x)) (drop 0 argv)\<rparr>)"
    and la: "length a' = length (replicate (?n + 1) Uninit)"
    and la2: "length a2' = length (replicate (?n + 1) Uninit)"
    and ea: "\<forall>j<length (replicate (?n + 1) Uninit). a' ! j = (if 0 \<le> j \<and> j < ?n
                 then slot_of (decode_result p (lc_all s3) (argv ! j))
                 else replicate (?n + 1) Uninit ! j)"
    and ea2: "\<forall>j<length (replicate (?n + 1) Uninit). a2' ! j = (if 0 \<le> j \<and> j < ?n
                 then slot_of (decode_result p (lc_all s3) (argv ! j))
                 else replicate (?n + 1) Uninit ! j)"
    using marshal_loop_ok[OF dec, of "replicate (?n + 1) Uninit" "replicate (?n + 1) Uninit"]
    by blast
  define ws where "ws = map (\<lambda>x. the (decode_result p (native_locale p) x)) argv"
  have ws: "map (decode_result p (native_locale p)) argv = map Some ws"
    using assms by (auto simp add: ws_def decodes_def)
  have lws: "length ws = ?n" by (simp add: ws_def)
  have nth_ws: "\<And>j. j < ?n \<Longrightarrow> decode_result p (native_locale p) (argv ! j) = Some (ws ! j)"
    using assms by (auto simp add: ws_def decodes_def)
  have A: "a'[?n := Null] = map Ptr ws @ [Null]"
  proof (rule nth_equalityI)
    show "length (a'[?n := Null]) = length (map Ptr ws @ [Null])" using la lws by simp
  next
    fix j assume "j < length (a'[?n := Null])"
    then have j: "j < ?n + 1" using la by simp
    show "a'[?n := Null] ! j = (map Ptr ws @ [Null]) ! j"
    proof (cases "j = ?n")
      case True
      then show ?thesis using la lws by (simp add: nth_append)
    next
      case False
      then have jn: "j < ?n" using j by simp
      then have "a' ! j = Ptr (ws ! j)" using ea nth_ws[OF jn] by (simp add: loc)
      then show ?thesis using jn False lws by (simp add: nth_append)
    qed
  qed
  have A2: "a2'[?n := Null] = map Ptr ws @ [Null]"
  proof (rule nth_equalityI)
    show "length (a2'[?n := Null]) = length (map Ptr ws @ [Null])" using la2 lws by simp
  next
    fix j assume "j < length (a2'[?n := Null])"
    then have j: "j < ?n + 1" using la2 by simp
    show "a2'[?n := Null] ! j = (map Ptr ws @ [Null]) ! j"
    proof (cases "j = ?n")
      case True
      then show ?thesis using la2 lws by (simp add: nth_append)
    next
      case False
      then have jn: "j < ?n" using j by simp
      then have "a2' ! j = Ptr (ws ! j)" using ea2 nth_ws[OF jn] by (simp add: loc)
      then show ?thesis using jn False lws by (simp add: nth_append)
    qed
  qed
  have M: "marshaler p argv s = Inr (a'[?n := Null], a2'[?n := Null],
             setlocale (lc_all s) (s3\<lparr>calls := calls s3 @
             map (\<lambda>x. DecodeLocale x (decode_result p (lc_all s3) x)) (drop 0 argv)\<rparr>))"
    unfolding marshaler_def Let_def s3_def[symmetric] L by (simp add: note_call_def)
  show ?thesis
    unfolding M A A2 using ws by (simp add: loc) (simp add: s3_def setlocale_def note_call_def)
qed

lemma marshaler_fail:
  assumes "first_failure p argv k"
  shows "\<exists>s'. marshaler p argv s = Inl (Exited 1, s')
     \<and> err s' = err s @ decode_failure k
     \<and> lc_all s' = native_locale p
     \<and> calls s' = calls s @ [RawMalloc (ptr_size p * (length argv + 1)),
                              RawMalloc (ptr_size p * (length argv + 1))]
                     @ map (\<lambda>x. DecodeLocale x (decode_result p (native_locale p) x))
                         (take (Suc k) argv)
     \<and> environ s' = environ s \<and> handle s' = handle s"
proof -
  let ?n = "length argv"
  let ?m = "RawMalloc (ptr_size p * (?n + 1))"
  define s3 where "s3 = setlocale (native_locale p) (note_call ?m (note_call ?m s))"
  have loc: "lc_all s3 = native_locale p" by (simp add: s3_def setlocale_def)
  have k: "k < ?n" and bad: "decode_result p (lc_all s3) (argv ! k) = None"
    and good: "\<forall>j. 0 \<le> j \<and> j < k \<longrightarrow> decode_result p (lc_all s3) (argv ! j) \<noteq> None"
    using assms by (simp_all add: first_failure_def loc)
  have L: "marshal_loop p argv 0 (replicate (?n + 1) Uninit, replicate (?n + 1) Uninit) s3 =
           Inl (Exited 1, fputs (decode_failure k)
                  (s3\<lparr>calls := calls s3 @
                      map (\<lambda>x. DecodeLocale x (decode_result p (lc_all s3) x))
                        (take (Suc k - 0) (drop 0 argv))\<rparr>))"
    by (rule marshal_loop_fail[OF _ k good bad]) simp
  show ?thesis
    unfolding marshaler_def Let_def s3_def[symmetric] L
    by (simp add: loc fputs_def) (simp add: s3_def setlocale_def note_call_def)
qed

lemma decodes_or_first_failure:
  "decodes p argv \<or> (\<exists>k. first_failure p argv k)"
proof (cases "decodes p argv")
  case True
  then show ?thesis by simp
next
  case False
  define bad where "bad = (\<lambda>j. j < length argv \<and> decode_result p (native_locale p) (argv ! j) = None)"
  from False obtain j where "bad j"
    by (auto simp add: decodes_def bad_def in_set_conv_nth)
  then have "bad (LEAST j. bad j)" by (rule LeastI)
  moreover have "\<forall>j<(LEAST j. bad j). \<not> bad j" using not_less_Least by blast
  ultimately have "first_failure p argv (LEAST j. bad j)"
    unfolding first_failure_def bad_def by auto
  then show ?thesis by blast
qed

lemma first_failure_not_decodes:
  "first_failure p argv k \<Longrightarrow> \<not> decodes p argv"
  by (auto simp add: first_failure_def decodes_def)

lemma free_loop:
  "foldl (\<lambda>s i. note_call (RawFree (f i)) s) s xs
     = s\<lparr>calls := calls s @ map (\<lambda>i. RawFree (f i)) xs\<rparr>"
  by (induction xs arbitrary: s) (simp_all add: note_call_def)

lemma invoker_result:
  "\<exists>s'. invoker p n a a2 s = (Exited (main_result p (calls s) n a), s')
     \<and> calls s' = calls s @ [PyMain n a (main_result p (calls s) n a)]
          @ map (\<lambda>i. RawFree (a2 ! i)) [0..<n] @ [RawFreeBlock Argv_copy, RawFreeBlock Argv_copy2]
     \<and> err s' = err s \<and> environ s' = environ s"
  unfolding invoker_def pyMain_def Let_def free_loop
  by (simp add: call_def note_call_def dlclose_def)

subsection \<open>Whole runs\<close>

lemma loader_ok:
  assumes "dlopen p x = Inr h" and "\<forall>n\<in>set symbols. dlsym p h n = None"
  shows "loader p x s = Inr (s\<lparr>handle := Some h\<rparr>)"
  using assms by (simp add: loader_def bind_symbols_ok)

lemma loader_fail:
  assumes "(\<exists>m. dlopen p x = Inl m)
             \<or> (\<exists>h. dlopen p x = Inr h \<and> (\<exists>n\<in>set symbols. dlsym p h n \<noteq> None))"
  shows "\<exists>msg s'. loader p x s = Inl (Exited 1, s') \<and> err s' = err s @ msg
           \<and> calls s' = calls s \<and> environ s' = environ s \<and> lc_all s' = lc_all s
           \<and> (dlopen p x = Inl msg
                \<or> (\<exists>h n. dlopen p x = Inr h \<and> n \<in> set symbols \<and> dlsym p h n = Some msg))"
  using assms
proof
  assume "\<exists>m. dlopen p x = Inl m"
  then show ?thesis by (auto simp add: loader_def fputs_def)
next
  assume "\<exists>h. dlopen p x = Inr h \<and> (\<exists>n\<in>set symbols. dlsym p h n \<noteq> None)"
  then obtain h where h: "dlopen p x = Inr h" and "\<exists>n\<in>set symbols. dlsym p h n \<noteq> None"
    by blast
  from bind_symbols_fail[OF this(2), of "s\<lparr>handle := Some h\<rparr>"]
  obtain n msg where "n \<in> set symbols" "dlsym p h n = Some msg"
    "bind_symbols p h symbols (s\<lparr>handle := Some h\<rparr>) = Inl (Exited 1, fputs msg (s\<lparr>handle := Some h\<rparr>))"
    by blast
  then show ?thesis using h by (auto simp add: loader_def fputs_def)
qed

lemma main_boot:
  assumes "env0 ''ANDROID_ARGUMENT'' = Some a" and "loads p env0 h"
  shows "\<exists>u w r0 r1 r2 r3 r4 r5 s3. unpack_root env0 = Some u
     \<and> main p argv env0 = (case marshaler p argv s3 of
                              Inl r \<Rightarrow> r
                            | Inr (argv_copy, argv_copy2, s4) \<Rightarrow>
                                invoker p (length argv) argv_copy argv_copy2 s4)
     \<and> calls s3 = bootstrap_calls u w r0 r1 r2 r3 r4 r5 \<and> err s3 = []
     \<and> answered p (calls s3)
     \<and> w = decode_result p (locale_after p (SetProgramName (wide ''android_python'')) ''C'')
              (paths (python_bundle_dir u))"
proof -
  from resolver_ok[of "startup env0" a] assms(1)
  obtain s1 where r: "resolver (startup env0) = Inr (env0 ''EXEPATH'', s1)"
    and u1: "environ s1 ''ANDROID_UNPACK'' = unpack_root env0"
    and e1: "err s1 = []" and c1: "calls s1 = []" and l1: "lc_all s1 = ''C''"
    by (auto simp add: startup_def)
  from assms have "unpack_root env0 \<noteq> None"
    by (simp add: unpack_root_def split: option.splits)
  then obtain u where u: "unpack_root env0 = Some u" by blast
  have l: "loader p (env0 ''EXEPATH'') s1 = Inr (s1\<lparr>handle := Some h\<rparr>)"
    using assms(2) by (simp add: loads_def loader_ok)
  have "environ (s1\<lparr>handle := Some h\<rparr>) ''ANDROID_UNPACK'' = Some u" using u1 u by simp
  from path_builder_ok[OF this, of p]
  obtain w r0 r1 r2 r3 r4 r5 s3 where pb: "path_builder p (s1\<lparr>handle := Some h\<rparr>) = Inr s3"
    and c3: "calls s3 = calls (s1\<lparr>handle := Some h\<rparr>) @ bootstrap_calls u w r0 r1 r2 r3 r4 r5"
    and e3: "err s3 = err (s1\<lparr>handle := Some h\<rparr>)"
    and w3: "w = decode_result p (locale_after p (SetProgramName (wide ''android_python''))
                    (lc_all (s1\<lparr>handle := Some h\<rparr>)))
              (paths (python_bundle_dir u))"
    unfolding bootstrap_calls_def by blast
  have m: "main p argv env0 = (case marshaler p argv s3 of
                              Inl r \<Rightarrow> r
                            | Inr (argv_copy, argv_copy2, s4) \<Rightarrow>
                                invoker p (length argv) argv_copy argv_copy2 s4)"
    by (simp add: main_def run_def r l pb)
  have c: "calls s3 = bootstrap_calls u w r0 r1 r2 r3 r4 r5" using c3 c1 by simp
  have e: "err s3 = []" using e3 e1 by simp
  have "answered p (calls (s1\<lparr>handle := Some h\<rparr>))" using c1 by (simp add: answered_Nil)
  then have an: "answered p (calls s3)" using pb by (rule path_builder_answered[rotated])
  have w: "w = decode_result p (locale_after p (SetProgramName (wide ''android_python'')) ''C'')
              (paths (python_bundle_dir u))"
    using w3 l1 by simp
  show ?thesis using u m c e an w by blast
qed

lemma main_complete:
  assumes "env0 ''ANDROID_ARGUMENT'' = Some a" and "loads p env0 h" and "decodes p argv"
  shows "\<exists>u w r0 r1 r2 r3 r4 r5 ws rc. unpack_root env0 = Some u
     \<and> map (decode_result p (native_locale p)) argv = map Some ws
     \<and> fst (main p argv env0) = Exited rc
     \<and> calls (snd (main p argv env0)) =
         bootstrap_calls u w r0 r1 r2 r3 r4 r5 @ marshal_calls p argv argv
           @ [PyMain (length argv) (map Ptr ws @ [Null]) rc]
           @ teardown_calls (length argv) (map Ptr ws @ [Null])
     \<and> err (snd (main p argv env0)) = []
     \<and> rc = main_result p (bootstrap_calls u w r0 r1 r2 r3 r4 r5 @ marshal_calls p argv argv)
            (length argv) (map Ptr ws @ [Null])
     \<and> answered p (calls (snd (main p argv env0)))
     \<and> w = decode_result p (locale_after p (SetProgramName (wide ''android_python'')) ''C'')
              (paths (python_bundle_dir u))"
proof -
  from main_boot[OF assms(1,2), of argv]
  obtain u w r0 r1 r2 r3 r4 r5 s3 where u: "unpack_root env0 = Some u"
    and m: "main p argv env0 = (case marshaler p argv s3 of
                              Inl r \<Rightarrow> r
                            | Inr (argv_copy, argv_copy2, s4) \<Rightarrow>
                                invoker p (length argv) argv_copy argv_copy2 s4)"
    and c3: "calls s3 = bootstrap_calls u w r0 r1 r2 r3 r4 r5" and e3: "err s3 = []"
    and a3: "answered p (calls s3)"
    and w: "w = decode_result p (locale_after p (SetProgramName (wide ''android_python'')) ''C'')
              (paths (python_bundle_dir u))"
    by blast
  from marshaler_ok[OF assms(3), of s3]
  obtain ws s4 where ws: "map (decode_result p (native_locale p)) argv = map Some ws"
    and ma: "marshaler p argv s3 = Inr (map Ptr ws @ [Null], map Ptr ws @ [Null], s4)"
    and c4: "calls s4 = calls s3 @ marshal_calls p argv argv" and e4: "err s4 = err s3"
    unfolding marshal_calls_def by blast
  from invoker_result[of p "length argv" "map Ptr ws @ [Null]" "map Ptr ws @ [Null]" s4]
  obtain s5 where
    i: "invoker p (length argv) (map Ptr ws @ [Null]) (map Ptr ws @ [Null]) s4 =
          (Exited (main_result p (calls s4) (length argv) (map Ptr ws @ [Null])), s5)"
    and c5: "calls s5 = calls s4 @ [PyMain (length argv) (map Ptr ws @ [Null])
                 (main_result p (calls s4) (length argv) (map Ptr ws @ [Null]))]
               @ teardown_calls (length argv) (map Ptr ws @ [Null])"
    and e5: "err s5 = err s4"
    unfolding teardown_calls_def by blast
  let ?rc = "main_result p (calls s4) (length argv) (map Ptr ws @ [Null])"
  have r: "main p argv env0 = (Exited ?rc, s5)"
    by (simp add: m ma i)
  have f: "fst (main p argv env0) = Exited ?rc" by (simp add: r)
  have c: "calls (snd (main p argv env0)) =
         bootstrap_calls u w r0 r1 r2 r3 r4 r5 @ marshal_calls p argv argv
           @ [PyMain (length argv) (map Ptr ws @ [Null]) ?rc]
           @ teardown_calls (length argv) (map Ptr ws @ [Null])"
    by (simp add: r c5 c4 c3)
  have e: "err (snd (main p argv env0)) = []" by (simp add: r e5 e4 e3)
  have rc: "?rc = main_result p (bootstrap_calls u w r0 r1 r2 r3 r4 r5 @ marshal_calls p argv argv)
            (length argv) (map Ptr ws @ [Null])"
    by (simp add: c4 c3)
  have "answered p (bootstrap_calls u w r0 r1 r2 r3 r4 r5 @ marshal_calls p argv argv)"
    using a3 c3 quiet_marshal by (simp add: answered_append_quiet)
  then have "answered p ((bootstrap_calls u w r0 r1 r2 r3 r4 r5 @ marshal_calls p argv argv)
                 @ [PyMain (length argv) (map Ptr ws @ [Null]) ?rc])"
    unfolding answered_snoc using rc by simp
  then have "answered p (((bootstrap_calls u w r0 r1 r2 r3 r4 r5 @ marshal_calls p argv argv)
                 @ [PyMain (length argv) (map Ptr ws @ [Null]) ?rc])
                 @ teardown_calls (length argv) (map Ptr ws @ [Null]))"
    using quiet_teardown by (rule answered_append_quiet)
  then have an: "answered p (calls (snd (main p argv env0)))" by (simp add: c)
  show ?thesis using u ws f c e rc an w by blast
qed

lemma main_decode_fail:
  assumes "env0 ''ANDROID_ARGUMENT'' = Some a" and "loads p env0 h" and "first_failure p argv k"
  shows "\<exists>u w r0 r1 r2 r3 r4 r5. unpack_root env0 = Some u
     \<and> fst (main p argv env0) = Exited 1
     \<and> calls (snd (main p argv env0)) =
         bootstrap_calls u w r0 r1 r2 r3 r4 r5 @ marshal_calls p argv (take (Suc k) argv)
     \<and> err (snd (main p argv env0)) = decode_failure k
     \<and> lc_all (snd (main p argv env0)) = native_locale p
     \<and> answered p (calls (snd (main p argv env0)))
     \<and> w = decode_result p (locale_after p (SetProgramName (wide ''android_python'')) ''C'')
              (paths (python_bundle_dir u))"
proof -
  from main_boot[OF assms(1,2), of argv]
  obtain u w r0 r1 r2 r3 r4 r5 s3 where u: "unpack_root env0 = Some u"
    and m: "main p argv env0 = (case marshaler p argv s3 of
                              Inl r \<Rightarrow> r
                            | Inr (argv_copy, argv_copy2, s4) \<Rightarrow>
                                invoker p (length argv) argv_copy argv_copy2 s4)"
    and c3: "calls s3 = bootstrap_calls u w r0 r1 r2 r3 r4 r5" and e3: "err s3 = []"
    and a3: "answered p (calls s3)"
    and w: "w = decode_result p (locale_after p (SetProgramName (wide ''android_python'')) ''C'')
              (paths (python_bundle_dir u))"
    by blast
  from marshaler_fail[OF assms(3), of s3]
  obtain s4 where ma: "marshaler p argv s3 = Inl (Exited 1, s4)"
    and e4: "err s4 = err s3 @ decode_failure k" and l4: "lc_all s4 = native_locale p"
    and c4: "calls s4 = calls s3 @ marshal_calls p argv (take (Suc k) argv)"
    unfolding marshal_calls_def by blast
  have r: "main p argv env0 = (Exited 1, s4)" by (simp add: m ma)
  have f: "fst (main p argv env0) = Exited 1" by (simp add: r)
  have c: "calls (snd (main p argv env0)) =
         bootstrap_calls u w r0 r1 r2 r3 r4 r5 @ marshal_calls p argv (take (Suc k) argv)"
    by (simp add: r c4 c3)
  have e: "err (snd (main p argv env0)) = decode_failure k" by (simp add: r e4 e3)
  have l: "lc_all (snd (main p argv env0)) = native_locale p" by (simp add: r l4)
  have an: "answered p (calls (snd (main p argv env0)))"
    unfolding c using a3 c3 quiet_marshal by (simp add: answered_append_quiet)
  show ?thesis using u f c e l an w by blast
qed

lemma main_load_fail:
  assumes "env0 ''ANDROID_ARGUMENT'' = Some a"
    and "(\<exists>m. dlopen p (env0 ''EXEPATH'') = Inl m)
           \<or> (\<exists>h. dlopen p (env0 ''EXEPATH'') = Inr h \<and> (\<exists>n\<in>set symbols. dlsym p h n \<noteq> None))"
  shows "\<exists>msg. fst (main p argv env0) = Exited 1
     \<and> err (snd (main p argv env0)) = msg
     \<and> calls (snd (main p argv env0)) = []
     \<and> (dlopen p (env0 ''EXEPATH'') = Inl msg
          \<or> (\<exists>h n. dlopen p (env0 ''EXEPATH'') = Inr h \<and> n \<in> set symbols
                \<and> dlsym p h n = Some msg))"
proof -
  from resolver_ok[of "startup env0" a] assms(1)
  obtain s1 where r: "resolver (startup env0) = Inr (env0 ''EXEPATH'', s1)"
    and e1: "err s1 = []" and c1: "calls s1 = []"
    by (auto simp add: startup_def)
  from loader_fail[OF assms(2), of s1]
  obtain msg s2 where l: "loader p (env0 ''EXEPATH'') s1 = Inl (Exited 1, s2)"
    and e2: "err s2 = err s1 @ msg" and c2: "calls s2 = calls s1"
    and d: "dlopen p (env0 ''EXEPATH'') = Inl msg
          \<or> (\<exists>h n. dlopen p (env0 ''EXEPATH'') = Inr h \<and> n \<in> set symbols
                \<and> dlsym p h n = Some msg)"
    by blast
  have "main p argv env0 = (Exited 1, s2)" by (simp add: main_def run_def r l)
  then show ?thesis using e1 e2 c1 c2 d by auto
qed

lemma main_fault:
  assumes "env0 ''ANDROID_ARGUMENT'' = None"
  shows "fst (main p argv env0) = Fault \<and> calls (snd (main p argv env0)) = []
         \<and> err (snd (main p argv env0)) = []"
  using assms by (simp add: main_def run_def resolver_fault startup_def)

subsection \<open>Numerals, traces and buffers\<close>

lemma digit_value: "d < 10 \<Longrightarrow> of_char (digit d) - 48 = d"
  by (simp add: digit_def)

lemma decimal_value_show_nat: "decimal_value (show_nat n) = n"
proof (induction n rule: show_nat.induct)
  case (1 n)
  show ?case
  proof (cases "n < 10")
    case True
    then show ?thesis by (subst show_nat.simps) (simp add: decimal_value_def digit_value)
  next
    case False
    then have "decimal_value (show_nat (n div 10)) = n div 10" using 1 by simp
    then show ?thesis using False
      by (subst show_nat.simps) (simp add: decimal_value_def digit_value)
  qed
qed

lemma no_main_bootstrap: "\<forall>e\<in>set (bootstrap_calls u w r0 r1 r2 r3 r4 r5). \<not> is_PyMain e"
  by (simp add: bootstrap_calls_def)

lemma no_main_marshal: "\<forall>e\<in>set (marshal_calls p argv xs). \<not> is_PyMain e"
  by (auto simp add: marshal_calls_def)

lemma no_main_teardown: "\<forall>e\<in>set (teardown_calls n a). \<not> is_PyMain e"
  by (auto simp add: teardown_calls_def)

lemma statements_append: "statements (xs @ ys) = statements xs @ statements ys"
  by (simp add: statements_def)

lemma statements_Cons: "statements (e # xs) = statement e @ statements xs"
  by (simp add: statements_def)

lemma statements_bootstrap:
  "statements (bootstrap_calls u w r0 r1 r2 r3 r4 r5) =
     [(''import sys, posix\<newline>'', r0), (preamble, r1), (add_prefix u, r2),
      (add_site_packages_dir (python_bundle_dir u), r3), (add_lib_path u, r4),
      (''sys.path = ['.'] + sys.path'', r5)]"
  by (simp add: statements_def bootstrap_calls_def)

lemma statements_marshal: "statements (marshal_calls p argv xs) = []"
  by (simp add: statements_def marshal_calls_def)

lemma statements_teardown: "statements (teardown_calls n a) = []"
  by (simp add: statements_def teardown_calls_def)

lemma snprintf_length: "length (snprintf 256 x) \<le> 255"
  by (simp add: snprintf_def)

lemma snprintf_fits: "(snprintf 256 x = x) = (length x \<le> 255)"
  by (auto simp add: snprintf_def)

lemma fits_bundle: "length u \<le> 240 \<Longrightarrow> python_bundle_dir u = u @ ''/_python_bundle''"
  by (simp add: python_bundle_dir_def snprintf_def)

lemma fits_paths:
  "length u \<le> 102 \<Longrightarrow> paths (python_bundle_dir u)
     = (u @ ''/_python_bundle'') @ ''/stdlib.zip:'' @ (u @ ''/_python_bundle'') @ ''/modules''"
  by (simp add: fits_bundle paths_def snprintf_def)

lemma fits_site:
  "length u \<le> 207 \<Longrightarrow> add_site_packages_dir (python_bundle_dir u)
     = ''sys.path.append('' @ [CHR 0x27] @ (u @ ''/_python_bundle'') @ ''/site-packages')''"
  by (simp add: fits_bundle add_site_packages_dir_def snprintf_def)

lemma fits_lib:
  "length u \<le> 208 \<Longrightarrow> add_lib_path u
     = ''sys.path.append('' @ [CHR 0x27] @ u @ ''/lib/python3.8/site-packages')''"
  by (simp add: add_lib_path_def snprintf_def)

lemma fits_prefix:
  "length u \<le> 240 \<Longrightarrow> add_prefix u = ''sys.prefix = '' @ [CHR 0x27] @ u @ [CHR 0x27]"
  by (simp add: add_prefix_def snprintf_def)





lemma main_statements:
  assumes "env0 ''ANDROID_ARGUMENT'' = Some a" and "loads p env0 h"
  shows "\<exists>u r0 r1 r2 r3 r4 r5. unpack_root env0 = Some u
     \<and> statements (calls (snd (main p argv env0))) =
         [(''import sys, posix\<newline>'', r0), (preamble, r1), (add_prefix u, r2),
          (add_site_packages_dir (python_bundle_dir u), r3), (add_lib_path u, r4),
          (''sys.path = ['.'] + sys.path'', r5)]"
proof (cases "decodes p argv")
  case True
  from main_complete[OF assms True]
  obtain u w r0 r1 r2 r3 r4 r5 ws rc where u: "unpack_root env0 = Some u"
    and c: "calls (snd (main p argv env0)) =
         bootstrap_calls u w r0 r1 r2 r3 r4 r5 @ marshal_calls p argv argv
           @ [PyMain (length argv) (map Ptr ws @ [Null]) rc]
           @ teardown_calls (length argv) (map Ptr ws @ [Null])"
    by blast
  have "statements (calls (snd (main p argv env0))) =
         [(''import sys, posix\<newline>'', r0), (preamble, r1), (add_prefix u, r2),
          (add_site_packages_dir (python_bundle_dir u), r3), (add_lib_path u, r4),
          (''sys.path = ['.'] + sys.path'', r5)]"
    unfolding c
    by (simp add: statements_append statements_Cons statements_bootstrap statements_marshal
        statements_teardown)
  with u show ?thesis by blast
next
  case False
  then obtain k where "first_failure p argv k" using decodes_or_first_failure by blast
  from main_decode_fail[OF assms this]
  obtain u w r0 r1 r2 r3 r4 r5 where u: "unpack_root env0 = Some u"
    and c: "calls (snd (main p argv env0)) =
         bootstrap_calls u w r0 r1 r2 r3 r4 r5 @ marshal_calls p argv (take (Suc k) argv)"
    by blast
  have "statements (calls (snd (main p argv env0))) =
         [(''import sys, posix\<newline>'', r0), (preamble, r1), (add_prefix u, r2),
          (add_site_packages_dir (python_bundle_dir u), r3), (add_lib_path u, r4),
          (''sys.path = ['.'] + sys.path'', r5)]"
    unfolding c
    by (simp add: statements_append statements_bootstrap statements_marshal)
  with u show ?thesis by blast
qed

text \<open>
  Line 134 does not test what \<^verbatim>\<open>Py_DecodeLocale\<close> returned, as the loop of lines 177 to
  186 does: with a search path that does not decode, \<^verbatim>\<open>Py_SetPath\<close> is called with the
  null pointer and the run goes on.
\<close>

lemma unchecked_decode_passes_null:
  "SetPath None \<in> set (calls (snd (main demo_platform [''python''] env_undecodable)))
   \<and> fst (main demo_platform [''python''] env_undecodable) = Exited 7"
  by (simp add: main_def run_def startup_def resolver_def setenv_def getenv_def demo_env_def
        env_undecodable_def
        demo_platform_def loader_def symbols_def path_builder_def call_def pyDecodeLocale_def
        note_call_def pySimpleString_def Let_def marshaler_def setlocale_def marshal_loop.simps
        invoker_def pyMain_def dlclose_def paths_def python_bundle_dir_def snprintf_def wide_def)

section \<open>The claims\<close>

subsection \<open>C7: the unpack root defaults to the application root\<close>

text \<open>
  Claim C7. When \<^verbatim>\<open>ANDROID_UNPACK\<close> is unset and \<^verbatim>\<open>ANDROID_ARGUMENT\<close> is set, the
  resolver goes on with \<^verbatim>\<open>ANDROID_UNPACK\<close> equal to \<^verbatim>\<open>ANDROID_ARGUMENT\<close>. When
  \<^verbatim>\<open>ANDROID_UNPACK\<close> is set, its value is the same in the state the resolver leaves,
  on every path (also the one that faults at line 38 because \<^verbatim>\<open>ANDROID_ARGUMENT\<close> is
  unset). Running the resolver again on the state it produced changes nothing.
\<close>

theorem resolver_defaults_unpack_root:
  "(environ s ''ANDROID_UNPACK'' = None \<and> environ s ''ANDROID_ARGUMENT'' = Some a \<longrightarrow>
      (\<exists>x s'. resolver s = Inr (x, s') \<and> environ s' ''ANDROID_UNPACK'' = Some a))
   \<and> (environ s ''ANDROID_UNPACK'' = Some u \<longrightarrow>
        environ (resolver_state (resolver s)) ''ANDROID_UNPACK'' = Some u)
   \<and> (resolver s = Inr (x, s') \<longrightarrow> resolver s' = Inr (x, s'))"
proof (intro conjI impI)
  assume "environ s ''ANDROID_UNPACK'' = None \<and> environ s ''ANDROID_ARGUMENT'' = Some a"
  then show "\<exists>x s'. resolver s = Inr (x, s') \<and> environ s' ''ANDROID_UNPACK'' = Some a"
    using resolver_ok[of s a] by (auto simp add: unpack_root_def)
next
  assume u: "environ s ''ANDROID_UNPACK'' = Some u"
  show "environ (resolver_state (resolver s)) ''ANDROID_UNPACK'' = Some u"
  proof (cases "environ s ''ANDROID_ARGUMENT''")
    case None
    then show ?thesis using u by (simp add: resolver_fault resolver_state_def)
  next
    case (Some b)
    then show ?thesis using resolver_ok[of s b] u
      by (auto simp add: unpack_root_def resolver_state_def)
  qed
next
  assume "resolver s = Inr (x, s')"
  then show "resolver s' = Inr (x, s')" by (rule resolver_idem)
qed

theorem resolver_defaults_unpack_root_witness:
  "environ (startup demo_env) ''ANDROID_UNPACK'' = None
   \<and> environ (startup demo_env) ''ANDROID_ARGUMENT'' = Some ''/data/app-root''
   \<and> (\<exists>x s'. resolver (startup demo_env) = Inr (x, s')
         \<and> environ s' ''ANDROID_UNPACK'' = Some ''/data/app-root''
         \<and> resolver s' = Inr (x, s')
         \<and> environ (resolver_state (resolver s')) ''ANDROID_UNPACK'' = Some ''/data/app-root'')"
proof -
  have h: "environ (startup demo_env) ''ANDROID_UNPACK'' = None
             \<and> environ (startup demo_env) ''ANDROID_ARGUMENT'' = Some ''/data/app-root''"
    by (simp add: startup_def demo_env_def)
  from h resolver_defaults_unpack_root[of "startup demo_env" "''/data/app-root''"]
  obtain x s' where r: "resolver (startup demo_env) = Inr (x, s')"
    and u: "environ s' ''ANDROID_UNPACK'' = Some ''/data/app-root''"
    by blast
  from r resolver_defaults_unpack_root[of "startup demo_env" _ _ x s']
  have i: "resolver s' = Inr (x, s')" by blast
  from u resolver_defaults_unpack_root[of s' _ "''/data/app-root''"]
  have "environ (resolver_state (resolver s')) ''ANDROID_UNPACK'' = Some ''/data/app-root''"
    by blast
  with h r u i show ?thesis by blast
qed

subsection \<open>C2: a library that does not open, or lacks a symbol, ends the run\<close>

text \<open>
  Claim C2. In a run that reaches the loader (\<^verbatim>\<open>ANDROID_ARGUMENT\<close> is set, so line 38 is
  defined), if \<^verbatim>\<open>dlopen\<close> fails, or \<^verbatim>\<open>dlerror\<close> reports an error after the lookup of
  one of the nine names, the process exits with status 1, standard error holds the
  loader's message, and no entry point of the runtime has been called, \<^verbatim>\<open>Py_Main\<close>
  included. The message is what \<^verbatim>\<open>dlerror\<close> returned, so it is non-empty when the
  dynamic loader's messages are.
\<close>

theorem loader_failure_is_fatal:
  assumes "env0 ''ANDROID_ARGUMENT'' = Some a"
    and "(\<exists>m. dlopen p (env0 ''EXEPATH'') = Inl m)
       \<or> (\<exists>h name. dlopen p (env0 ''EXEPATH'') = Inr h \<and> dlsym p h name \<noteq> None
             \<and> name \<in> {''Py_SetProgramName'', ''Py_DecodeLocale'', ''Py_SetPath'',
                  ''Py_Initialize'', ''PyEval_InitThreads'', ''PyRun_SimpleString'',
                  ''PyMem_RawMalloc'', ''PyMem_RawFree'', ''Py_Main''})"
    and "\<forall>m. dlopen p (env0 ''EXEPATH'') = Inl m \<longrightarrow> m \<noteq> []"
    and "\<forall>h name m. dlsym p h name = Some m \<longrightarrow> m \<noteq> []"
  shows "fst (main p argv env0) = Exited 1
       \<and> err (snd (main p argv env0)) \<noteq> []
       \<and> calls (snd (main p argv env0)) = []
       \<and> \<not> (\<exists>e\<in>set (calls (snd (main p argv env0))). is_PyMain e)"
proof -
  have "(\<exists>m. dlopen p (env0 ''EXEPATH'') = Inl m)
           \<or> (\<exists>h. dlopen p (env0 ''EXEPATH'') = Inr h \<and> (\<exists>n\<in>set symbols. dlsym p h n \<noteq> None))"
    using assms(2) by (auto simp add: symbols_def)
  from main_load_fail[OF assms(1) this, of argv]
  obtain msg where f: "fst (main p argv env0) = Exited 1"
    and e: "err (snd (main p argv env0)) = msg"
    and c: "calls (snd (main p argv env0)) = []"
    and d: "dlopen p (env0 ''EXEPATH'') = Inl msg
          \<or> (\<exists>h n. dlopen p (env0 ''EXEPATH'') = Inr h \<and> n \<in> set symbols
                \<and> dlsym p h n = Some msg)"
    by blast
  from d assms(3,4) have "msg \<noteq> []" by blast
  then show ?thesis using f e c by simp
qed

theorem loader_failure_is_fatal_witness:
  "fst (main demo_platform_no_main [''python''] demo_env) = Exited 1
   \<and> err (snd (main demo_platform_no_main [''python''] demo_env)) \<noteq> []
   \<and> calls (snd (main demo_platform_no_main [''python''] demo_env)) = []
   \<and> fst (main demo_platform [''python''] (demo_env(''EXEPATH'' \<mapsto> ''/nonexistent.so''))) = Exited 1
   \<and> err (snd (main demo_platform [''python''] (demo_env(''EXEPATH'' \<mapsto> ''/nonexistent.so'')))) \<noteq> []"
proof -
  have a1: "demo_env ''ANDROID_ARGUMENT'' = Some ''/data/app-root''"
    by (simp add: demo_env_def)
  have b1: "(\<exists>m. dlopen demo_platform_no_main (demo_env ''EXEPATH'') = Inl m)
       \<or> (\<exists>h name. dlopen demo_platform_no_main (demo_env ''EXEPATH'') = Inr h
             \<and> dlsym demo_platform_no_main h name \<noteq> None
             \<and> name \<in> {''Py_SetProgramName'', ''Py_DecodeLocale'', ''Py_SetPath'',
                  ''Py_Initialize'', ''PyEval_InitThreads'', ''PyRun_SimpleString'',
                  ''PyMem_RawMalloc'', ''PyMem_RawFree'', ''Py_Main''})"
    by (rule disjI2, rule exI[of _ 1], rule exI[of _ "''Py_Main''"])
      (simp add: demo_platform_no_main_def demo_platform_def demo_env_def)
  have c1: "\<forall>m. dlopen demo_platform_no_main (demo_env ''EXEPATH'') = Inl m \<longrightarrow> m \<noteq> []"
    by (simp add: demo_platform_no_main_def demo_platform_def demo_env_def)
  have d1: "\<forall>h name m. dlsym demo_platform_no_main h name = Some m \<longrightarrow> m \<noteq> []"
    by (auto simp add: demo_platform_no_main_def demo_platform_def)
  let ?env = "demo_env(''EXEPATH'' \<mapsto> ''/nonexistent.so'')"
  have a2: "?env ''ANDROID_ARGUMENT'' = Some ''/data/app-root''"
    by (simp add: demo_env_def)
  have b2: "(\<exists>m. dlopen demo_platform (?env ''EXEPATH'') = Inl m)
       \<or> (\<exists>h name. dlopen demo_platform (?env ''EXEPATH'') = Inr h
             \<and> dlsym demo_platform h name \<noteq> None
             \<and> name \<in> {''Py_SetProgramName'', ''Py_DecodeLocale'', ''Py_SetPath'',
                  ''Py_Initialize'', ''PyEval_InitThreads'', ''PyRun_SimpleString'',
                  ''PyMem_RawMalloc'', ''PyMem_RawFree'', ''Py_Main''})"
    by (rule disjI1) (simp add: demo_platform_def)
  have c2: "\<forall>m. dlopen demo_platform (?env ''EXEPATH'') = Inl m \<longrightarrow> m \<noteq> []"
    by (simp add: demo_platform_def)
  have d2: "\<forall>h name m. dlsym demo_platform h name = Some m \<longrightarrow> m \<noteq> []"
    by (auto simp add: demo_platform_def)
  show ?thesis
    using loader_failure_is_fatal[OF a1 b1 c1 d1, of "[''python'']"]
      loader_failure_is_fatal[OF a2 b2 c2 d2, of "[''python'']"]
    by blast
qed

subsection \<open>C5: the exit status\<close>

text \<open>
  Claim C5, as amended. In a run with \<^verbatim>\<open>ANDROID_ARGUMENT\<close> set: when the library opens,
  all nine symbols resolve and every argument decodes, \<^verbatim>\<open>Py_Main\<close> is called exactly
  once and the exit status is the integer it returned; when the library does not load or
  an argument does not decode, the exit status is 1.
\<close>

theorem exit_status:
  assumes "env0 ''ANDROID_ARGUMENT'' = Some a"
  shows "(loads p env0 h \<and> decodes p argv \<longrightarrow>
            (\<exists>before argv_copy rc after.
               calls (snd (main p argv env0))
                 = before @ [PyMain (length argv) argv_copy rc] @ after
               \<and> (\<forall>e\<in>set (before @ after). \<not> is_PyMain e)
               \<and> rc = main_result p before (length argv) argv_copy
               \<and> fst (main p argv env0) = Exited rc))
       \<and> ((\<forall>h. \<not> loads p env0 h) \<or> \<not> decodes p argv \<longrightarrow>
            fst (main p argv env0) = Exited 1)"
proof (intro conjI impI)
  assume "loads p env0 h \<and> decodes p argv"
  then have l: "loads p env0 h" and d: "decodes p argv" by simp_all
  from main_complete[OF assms l d]
  obtain u w r0 r1 r2 r3 r4 r5 ws rc where f: "fst (main p argv env0) = Exited rc"
    and c: "calls (snd (main p argv env0)) =
         bootstrap_calls u w r0 r1 r2 r3 r4 r5 @ marshal_calls p argv argv
           @ [PyMain (length argv) (map Ptr ws @ [Null]) rc]
           @ teardown_calls (length argv) (map Ptr ws @ [Null])"
    and rc: "rc = main_result p (bootstrap_calls u w r0 r1 r2 r3 r4 r5 @ marshal_calls p argv argv)
            (length argv) (map Ptr ws @ [Null])"
    by blast
  let ?before = "bootstrap_calls u w r0 r1 r2 r3 r4 r5 @ marshal_calls p argv argv"
  let ?after = "teardown_calls (length argv) (map Ptr ws @ [Null])"
  have c': "calls (snd (main p argv env0))
              = ?before @ [PyMain (length argv) (map Ptr ws @ [Null]) rc] @ ?after"
    using c by simp
  have n: "\<forall>e\<in>set (?before @ ?after). \<not> is_PyMain e"
    using no_main_bootstrap no_main_marshal no_main_teardown by auto
  show "\<exists>before argv_copy rc after.
               calls (snd (main p argv env0))
                 = before @ [PyMain (length argv) argv_copy rc] @ after
               \<and> (\<forall>e\<in>set (before @ after). \<not> is_PyMain e)
               \<and> rc = main_result p before (length argv) argv_copy
               \<and> fst (main p argv env0) = Exited rc"
    using c' n rc f by blast
next
  assume fail: "(\<forall>h. \<not> loads p env0 h) \<or> \<not> decodes p argv"
  show "fst (main p argv env0) = Exited 1"
  proof (cases "\<exists>h. loads p env0 h")
    case False
    then have "(\<exists>m. dlopen p (env0 ''EXEPATH'') = Inl m)
           \<or> (\<exists>h. dlopen p (env0 ''EXEPATH'') = Inr h \<and> (\<exists>n\<in>set symbols. dlsym p h n \<noteq> None))"
      by (cases "dlopen p (env0 ''EXEPATH'')") (auto simp add: loads_def)
    from main_load_fail[OF assms this, of argv] show ?thesis by blast
  next
    case True
    then obtain h' where l: "loads p env0 h'" by blast
    with fail have "\<not> decodes p argv" by blast
    then obtain k where "first_failure p argv k" using decodes_or_first_failure by blast
    from main_decode_fail[OF assms l this] show ?thesis by blast
  qed
qed

theorem exit_status_witness:
  "fst (main demo_platform [''python'', ''-c'', ''pass''] demo_env) = Exited 7
   \<and> PyMain 3 [Ptr (wide ''python''), Ptr (wide ''-c''), Ptr (wide ''pass''), Null] 7
        \<in> set (calls (snd (main demo_platform [''python'', ''-c'', ''pass''] demo_env)))
   \<and> fst (main demo_platform [''python'', [CHR 0xFF]] demo_env) = Exited 1
   \<and> fst (main demo_platform_no_main [''python''] demo_env) = Exited 1"
proof -
  have a: "demo_env ''ANDROID_ARGUMENT'' = Some ''/data/app-root''"
    by (simp add: demo_env_def)
  have l: "loads demo_platform demo_env 1"
    by (simp add: loads_def demo_platform_def demo_env_def)
  have d: "decodes demo_platform [''python'', ''-c'', ''pass'']"
    by (simp add: decodes_def demo_platform_def)
  have nd: "\<not> decodes demo_platform [''python'', [CHR 0xFF]]"
    by (simp add: decodes_def demo_platform_def)
  have nl: "\<forall>h. \<not> loads demo_platform_no_main demo_env h"
    by (simp add: loads_def demo_platform_no_main_def demo_platform_def symbols_def)
  from exit_status[of demo_env "''/data/app-root''" demo_platform 1 "[''python'', ''-c'', ''pass'']", OF a] l d
  obtain before argv_copy rc after where
    c: "calls (snd (main demo_platform [''python'', ''-c'', ''pass''] demo_env))
          = before @ [PyMain (length [''python'', ''-c'', ''pass'']) argv_copy rc] @ after"
    and f: "fst (main demo_platform [''python'', ''-c'', ''pass''] demo_env) = Exited rc"
    by blast
  have ev: "main demo_platform [''python'', ''-c'', ''pass''] demo_env
      = (Exited 7, snd (main demo_platform [''python'', ''-c'', ''pass''] demo_env))
    \<and> PyMain 3 [Ptr (wide ''python''), Ptr (wide ''-c''), Ptr (wide ''pass''), Null] 7
        \<in> set (calls (snd (main demo_platform [''python'', ''-c'', ''pass''] demo_env)))"
    by (simp add: main_def run_def startup_def resolver_def setenv_def getenv_def demo_env_def
        demo_platform_def loader_def symbols_def path_builder_def call_def pyDecodeLocale_def
        note_call_def pySimpleString_def Let_def marshaler_def setlocale_def marshal_loop.simps
        invoker_def pyMain_def dlclose_def)
  have f1: "fst (main demo_platform [''python'', [CHR 0xFF]] demo_env) = Exited 1"
    using exit_status[of demo_env "''/data/app-root''" demo_platform 1 "[''python'', [CHR 0xFF]]", OF a] nd by blast
  have f2: "fst (main demo_platform_no_main [''python''] demo_env) = Exited 1"
    using exit_status[of demo_env "''/data/app-root''" demo_platform_no_main 1 "[''python'']", OF a] nl by blast
  from ev have "fst (main demo_platform [''python'', ''-c'', ''pass''] demo_env) = Exited 7"
    by (metis fst_conv)
  with f ev f1 f2 show ?thesis by blast
qed

text \<open>
  For every run the claim fails. With \<^verbatim>\<open>ANDROID_ARGUMENT\<close> unset, line 38 hands the null
  pointer to \<^verbatim>\<open>setenv\<close>: the run ends in the first phase by a fault, not by
  \<^verbatim>\<open>exit\<close>, with nothing written to standard error and nothing called.
\<close>

theorem unset_argument_counterexample:
  "fst (main demo_platform [''python''] env_without_argument) = Fault
   \<and> fst (main demo_platform [''python''] env_without_argument) \<noteq> Exited 1
   \<and> err (snd (main demo_platform [''python''] env_without_argument)) = []
   \<and> calls (snd (main demo_platform [''python''] env_without_argument)) = []"
proof -
  have "env_without_argument ''ANDROID_ARGUMENT'' = None"
    by (simp add: env_without_argument_def)
  from main_fault[of env_without_argument demo_platform "[''python'']", OF this]
  show ?thesis by simp
qed

subsection \<open>C6: an argument that does not decode ends the run\<close>

text \<open>
  Claim C6. In a run that reaches the marshaler, if \<^verbatim>\<open>Py_DecodeLocale\<close> returns the
  null pointer for argument \<open>k\<close> (the arguments before it having decoded, or the loop
  would have stopped earlier), the process exits with status 1, standard error holds
  the line \<^verbatim>\<open>Fatal Python error: unable to decode the command line argument #\<close> followed
  by the decimal numeral of \<open>k + 1\<close>, and \<^verbatim>\<open>Py_Main\<close> is never called.
\<close>

theorem decode_failure_is_fatal:
  assumes "env0 ''ANDROID_ARGUMENT'' = Some a" and "loads p env0 h"
    and "k < length argv" and "decode_result p (native_locale p) (argv ! k) = None"
    and "\<forall>j<k. decode_result p (native_locale p) (argv ! j) \<noteq> None"
  shows "fst (main p argv env0) = Exited 1
       \<and> err (snd (main p argv env0)) =
           ''Fatal Python error: unable to decode the command line argument #''
             @ show_nat (k + 1) @ ''\<newline>''
       \<and> decimal_value (show_nat (k + 1)) = k + 1
       \<and> \<not> (\<exists>e\<in>set (calls (snd (main p argv env0))). is_PyMain e)"
proof -
  have ff: "first_failure p argv k" using assms(3,4,5) by (simp add: first_failure_def)
  from main_decode_fail[OF assms(1,2) ff]
  obtain u w r0 r1 r2 r3 r4 r5 where f: "fst (main p argv env0) = Exited 1"
    and c: "calls (snd (main p argv env0)) =
         bootstrap_calls u w r0 r1 r2 r3 r4 r5 @ marshal_calls p argv (take (Suc k) argv)"
    and e: "err (snd (main p argv env0)) = decode_failure k"
    by blast
  have n: "\<not> (\<exists>e\<in>set (calls (snd (main p argv env0))). is_PyMain e)"
    unfolding c using no_main_bootstrap no_main_marshal by auto
  show ?thesis using f e n by (simp add: decode_failure_def decimal_value_show_nat)
qed

theorem decode_failure_is_fatal_witness:
  "fst (main demo_platform [''python'', [CHR 0xFF], ''x''] demo_env) = Exited 1
   \<and> err (snd (main demo_platform [''python'', [CHR 0xFF], ''x''] demo_env)) =
        ''Fatal Python error: unable to decode the command line argument #2\<newline>''
   \<and> \<not> (\<exists>e\<in>set (calls (snd (main demo_platform [''python'', [CHR 0xFF], ''x''] demo_env))).
            is_PyMain e)"
proof -
  have a: "demo_env ''ANDROID_ARGUMENT'' = Some ''/data/app-root''"
    by (simp add: demo_env_def)
  have l: "loads demo_platform demo_env 1"
    by (simp add: loads_def demo_platform_def demo_env_def)
  have k: "(1::nat) < length [''python'', [CHR 0xFF], ''x'']" by simp
  have b: "decode_result demo_platform (native_locale demo_platform)
             ([''python'', [CHR 0xFF], ''x''] ! 1) = None"
    by (simp add: demo_platform_def)
  have g: "\<forall>j<1. decode_result demo_platform (native_locale demo_platform)
             ([''python'', [CHR 0xFF], ''x''] ! j) \<noteq> None"
    by (simp add: demo_platform_def)
  have s: "show_nat (1 + 1) = ''2''"
    by code_simp
  note t = decode_failure_is_fatal[of demo_env "''/data/app-root''" demo_platform 1 1
        "[''python'', [CHR 0xFF], ''x'']", OF a l k b g]
  from t[unfolded s] show ?thesis by simp
qed

subsection \<open>C3: the two argument arrays\<close>

text \<open>
  Claim C3. When every argument decodes, the marshaler returns two arrays of
  \<open>argc + 1\<close> elements, both equal to the decoded arguments in their order followed
  by the null pointer; \<^verbatim>\<open>Py_Main\<close> is called with that array and the argument count,
  and the strings freed afterwards are the elements of the second, equal array.
\<close>

theorem marshaled_arrays:
  assumes "\<forall>x\<in>set argv. decode_result p (native_locale p) x \<noteq> None"
  shows "\<exists>ws. map (decode_result p (native_locale p)) argv = map Some ws
       \<and> length (map Ptr ws @ [Null]) = length argv + 1
       \<and> (\<exists>s'. marshaler p argv s = Inr (map Ptr ws @ [Null], map Ptr ws @ [Null], s'))
       \<and> (env0 ''ANDROID_ARGUMENT'' = Some a \<and> loads p env0 h \<longrightarrow>
            (\<exists>before rc. calls (snd (main p argv env0))
               = before @ [PyMain (length argv) (map Ptr ws @ [Null]) rc]
                   @ teardown_calls (length argv) (map Ptr ws @ [Null])
               \<and> (\<forall>e\<in>set before. \<not> is_PyMain e)))"
proof -
  have d: "decodes p argv" using assms by (simp add: decodes_def)
  from marshaler_ok[OF d, of s]
  obtain ws s' where ws: "map (decode_result p (native_locale p)) argv = map Some ws"
    and m: "marshaler p argv s = Inr (map Ptr ws @ [Null], map Ptr ws @ [Null], s')"
    by blast
  have "length ws = length argv" using ws by (metis length_map)
  then have len: "length (map Ptr ws @ [Null]) = length argv + 1" by simp
  have run: "env0 ''ANDROID_ARGUMENT'' = Some a \<and> loads p env0 h \<longrightarrow>
            (\<exists>before rc. calls (snd (main p argv env0))
               = before @ [PyMain (length argv) (map Ptr ws @ [Null]) rc]
                   @ teardown_calls (length argv) (map Ptr ws @ [Null])
               \<and> (\<forall>e\<in>set before. \<not> is_PyMain e))"
  proof
    assume "env0 ''ANDROID_ARGUMENT'' = Some a \<and> loads p env0 h"
    then have a: "env0 ''ANDROID_ARGUMENT'' = Some a" and l: "loads p env0 h" by simp_all
    from main_complete[OF a l d]
    obtain u w r0 r1 r2 r3 r4 r5 ws' rc
      where ws': "map (decode_result p (native_locale p)) argv = map Some ws'"
      and c: "calls (snd (main p argv env0)) =
         bootstrap_calls u w r0 r1 r2 r3 r4 r5 @ marshal_calls p argv argv
           @ [PyMain (length argv) (map Ptr ws' @ [Null]) rc]
           @ teardown_calls (length argv) (map Ptr ws' @ [Null])"
      by blast
    from ws ws' have "map Some ws' = map Some ws" by simp
    then have eq: "ws' = ws" by (simp add: inj_map_eq_map)
    let ?before = "bootstrap_calls u w r0 r1 r2 r3 r4 r5 @ marshal_calls p argv argv"
    have c': "calls (snd (main p argv env0))
               = ?before @ [PyMain (length argv) (map Ptr ws @ [Null]) rc]
                   @ teardown_calls (length argv) (map Ptr ws @ [Null])"
      using c eq by simp
    have n: "\<forall>e\<in>set ?before. \<not> is_PyMain e"
      using no_main_bootstrap no_main_marshal by auto
    show "\<exists>before rc. calls (snd (main p argv env0))
               = before @ [PyMain (length argv) (map Ptr ws @ [Null]) rc]
                   @ teardown_calls (length argv) (map Ptr ws @ [Null])
               \<and> (\<forall>e\<in>set before. \<not> is_PyMain e)"
      using c' n by blast
  qed
  show ?thesis using ws len m run by blast
qed

theorem marshaled_arrays_witness:
  "(\<exists>s'. marshaler demo_platform [''python'', ''-c'', ''pass''] (startup demo_env)
     = Inr ([Ptr (wide ''python''), Ptr (wide ''-c''), Ptr (wide ''pass''), Null],
            [Ptr (wide ''python''), Ptr (wide ''-c''), Ptr (wide ''pass''), Null], s'))
   \<and> (\<exists>rc. PyMain 3 [Ptr (wide ''python''), Ptr (wide ''-c''), Ptr (wide ''pass''), Null] rc
        \<in> set (calls (snd (main demo_platform [''python'', ''-c'', ''pass''] demo_env))))"
proof -
  let ?argv = "[''python'', ''-c'', ''pass'']"
  have d: "\<forall>x\<in>set ?argv. decode_result demo_platform (native_locale demo_platform) x \<noteq> None"
    by (simp add: demo_platform_def)
  have a: "demo_env ''ANDROID_ARGUMENT'' = Some ''/data/app-root''"
    by (simp add: demo_env_def)
  have l: "loads demo_platform demo_env 1"
    by (simp add: loads_def demo_platform_def demo_env_def)
  from marshaled_arrays[of ?argv demo_platform "startup demo_env" demo_env "''/data/app-root''" 1, OF d] a l
  obtain ws s' before rc where
    ws: "map (decode_result demo_platform (native_locale demo_platform)) ?argv = map Some ws"
    and m: "marshaler demo_platform ?argv (startup demo_env)
              = Inr (map Ptr ws @ [Null], map Ptr ws @ [Null], s')"
    and c: "calls (snd (main demo_platform ?argv demo_env))
               = before @ [PyMain (length ?argv) (map Ptr ws @ [Null]) rc]
                   @ teardown_calls (length ?argv) (map Ptr ws @ [Null])"
    by blast
  have "map Some ws = map Some [wide ''python'', wide ''-c'', wide ''pass'']"
    using ws by (simp add: demo_platform_def)
  then have w: "ws = [wide ''python'', wide ''-c'', wide ''pass'']"
    by (simp only: inj_map_eq_map[OF inj_Some])
  have ex: "PyMain 3 (map Ptr ws @ [Null]) rc
              \<in> set (calls (snd (main demo_platform ?argv demo_env)))"
    unfolding c by simp
  show ?thesis using m ex unfolding w by auto
qed

subsection \<open>C8: the results of the injected statements are not looked at\<close>

text \<open>
  Claim C8. Whatever \<^verbatim>\<open>PyRun_SimpleString\<close> answers (\<open>answer\<close> is any function of the
  calls so far and the statement, non-zero values included), a run whose library loads
  and whose arguments decode submits all six statements, records for each the value the
  runtime answered, goes on to marshal the arguments and to call \<^verbatim>\<open>Py_Main\<close>, and
  exits with the value \<^verbatim>\<open>Py_Main\<close> returned.
\<close>

theorem statement_results_are_ignored:
  assumes "env0 ''ANDROID_ARGUMENT'' = Some a" and "loads p env0 h" and "decodes p argv"
  shows "\<exists>u r0 r1 r2 r3 r4 r5 before argv_copy rc after.
       unpack_root env0 = Some u
     \<and> statements (calls (snd (main (p\<lparr>string_result := answer\<rparr>) argv env0))) =
         [(''import sys, posix\<newline>'', r0), (preamble, r1), (add_prefix u, r2),
          (add_site_packages_dir (python_bundle_dir u), r3), (add_lib_path u, r4),
          (''sys.path = ['.'] + sys.path'', r5)]
     \<and> (\<forall>i<length (calls (snd (main (p\<lparr>string_result := answer\<rparr>) argv env0))).
          \<forall>stmt r. calls (snd (main (p\<lparr>string_result := answer\<rparr>) argv env0)) ! i
                     = SimpleString stmt r
            \<longrightarrow> r = answer (take i (calls (snd (main (p\<lparr>string_result := answer\<rparr>) argv env0)))) stmt)
     \<and> calls (snd (main (p\<lparr>string_result := answer\<rparr>) argv env0))
         = before @ [PyMain (length argv) argv_copy rc] @ after
     \<and> statements after = []
     \<and> fst (main (p\<lparr>string_result := answer\<rparr>) argv env0) = Exited rc"
proof -
  let ?p = "p\<lparr>string_result := answer\<rparr>"
  have l: "loads ?p env0 h" using assms(2) by (simp add: loads_def)
  have d: "decodes ?p argv" using assms(3) by (simp add: decodes_def)
  from main_complete[OF assms(1) l d]
  obtain u w r0 r1 r2 r3 r4 r5 ws rc where u: "unpack_root env0 = Some u"
    and f: "fst (main ?p argv env0) = Exited rc"
    and c: "calls (snd (main ?p argv env0)) =
         bootstrap_calls u w r0 r1 r2 r3 r4 r5 @ marshal_calls ?p argv argv
           @ [PyMain (length argv) (map Ptr ws @ [Null]) rc]
           @ teardown_calls (length argv) (map Ptr ws @ [Null])"
    and an: "answered ?p (calls (snd (main ?p argv env0)))"
    by blast
  let ?before = "bootstrap_calls u w r0 r1 r2 r3 r4 r5 @ marshal_calls ?p argv argv"
  let ?after = "teardown_calls (length argv) (map Ptr ws @ [Null])"
  have c': "calls (snd (main ?p argv env0))
              = ?before @ [PyMain (length argv) (map Ptr ws @ [Null]) rc] @ ?after"
    using c by simp
  have st: "statements (calls (snd (main ?p argv env0))) =
         [(''import sys, posix\<newline>'', r0), (preamble, r1), (add_prefix u, r2),
          (add_site_packages_dir (python_bundle_dir u), r3), (add_lib_path u, r4),
          (''sys.path = ['.'] + sys.path'', r5)]"
    unfolding c
    by (simp add: statements_append statements_Cons statements_bootstrap statements_marshal
        statements_teardown)
  have sa: "statements ?after = []" by (rule statements_teardown)
  have ans: "\<forall>i<length (calls (snd (main ?p argv env0))).
          \<forall>stmt r. calls (snd (main ?p argv env0)) ! i = SimpleString stmt r
            \<longrightarrow> r = answer (take i (calls (snd (main ?p argv env0)))) stmt"
    using an by (simp add: answered_def)
  show ?thesis using u st ans c' sa f by blast
qed

theorem statement_results_are_ignored_witness:
  "statements (calls (snd (main (demo_platform\<lparr>string_result := (\<lambda>history stmt. - 1)\<rparr>)
       [''python''] demo_env))) =
     [(''import sys, posix\<newline>'', - 1), (preamble, - 1), (add_prefix ''/data/app-root'', - 1),
      (add_site_packages_dir (python_bundle_dir ''/data/app-root''), - 1),
      (add_lib_path ''/data/app-root'', - 1), (''sys.path = ['.'] + sys.path'', - 1)]
   \<and> (\<exists>before argv_copy rc after.
        calls (snd (main (demo_platform\<lparr>string_result := (\<lambda>history stmt. - 1)\<rparr>)
          [''python''] demo_env)) = before @ [PyMain 1 argv_copy rc] @ after
        \<and> fst (main (demo_platform\<lparr>string_result := (\<lambda>history stmt. - 1)\<rparr>)
          [''python''] demo_env) = Exited rc)"
proof -
  let ?p = "demo_platform\<lparr>string_result := (\<lambda>history stmt. - 1)\<rparr>"
  have a: "demo_env ''ANDROID_ARGUMENT'' = Some ''/data/app-root''"
    by (simp add: demo_env_def)
  have l: "loads demo_platform demo_env 1"
    by (simp add: loads_def demo_platform_def demo_env_def)
  have d: "decodes demo_platform [''python'']"
    by (simp add: decodes_def demo_platform_def)
  have ur: "unpack_root demo_env = Some ''/data/app-root''"
    by (simp add: unpack_root_def demo_env_def)
  from statement_results_are_ignored[of demo_env "''/data/app-root''" demo_platform 1
      "[''python'']" "\<lambda>history stmt. - 1", OF a l d]
  obtain u r0 r1 r2 r3 r4 r5 before argv_copy rc after where
    u: "unpack_root demo_env = Some u"
    and st: "statements (calls (snd (main ?p [''python''] demo_env))) =
         [(''import sys, posix\<newline>'', r0), (preamble, r1), (add_prefix u, r2),
          (add_site_packages_dir (python_bundle_dir u), r3), (add_lib_path u, r4),
          (''sys.path = ['.'] + sys.path'', r5)]"
    and ans: "\<forall>i<length (calls (snd (main ?p [''python''] demo_env))).
          \<forall>stmt r. calls (snd (main ?p [''python''] demo_env)) ! i = SimpleString stmt r
            \<longrightarrow> r = (- 1 :: int)"
    and c: "calls (snd (main ?p [''python''] demo_env))
         = before @ [PyMain (length [''python'']) argv_copy rc] @ after"
    and f: "fst (main ?p [''python''] demo_env) = Exited rc"
    by blast
  have u': "u = ''/data/app-root''" using u ur by simp
  have all: "\<forall>x\<in>set (statements (calls (snd (main ?p [''python''] demo_env)))). snd x = - 1"
  proof
    fix x assume "x \<in> set (statements (calls (snd (main ?p [''python''] demo_env))))"
    then obtain e where e: "e \<in> set (calls (snd (main ?p [''python''] demo_env)))"
      and x: "x \<in> set (statement e)"
      by (auto simp add: statements_def)
    from x obtain stmt r where er: "e = SimpleString stmt r" and xr: "x = (stmt, r)"
      by (cases e) simp_all
    from e obtain i where "i < length (calls (snd (main ?p [''python''] demo_env)))"
      and "calls (snd (main ?p [''python''] demo_env)) ! i = e"
      by (auto simp add: in_set_conv_nth)
    with ans er have "r = - 1" by blast
    then show "snd x = - 1" using xr by simp
  qed
  have rs: "r0 = - 1 \<and> r1 = - 1 \<and> r2 = - 1 \<and> r3 = - 1 \<and> r4 = - 1 \<and> r5 = - 1"
    using all unfolding st by simp
  show ?thesis using st c f rs u' by auto
qed

subsection \<open>C4: the locale around the decoding loop\<close>

text \<open>
  Claim C4, as amended. When every argument decodes, the marshaler leaves \<^verbatim>\<open>LC_ALL\<close>
  at the value it had on entry (line 188 sets it back from the saved name). When an
  argument does not decode, the saved name is freed at line 180, \<^verbatim>\<open>setlocale\<close> is not
  called again, and the process exits with status 1 while \<^verbatim>\<open>LC_ALL\<close> is still the
  native locale that line 175 selected.
\<close>

theorem marshaler_locale:
  "(decodes p argv \<longrightarrow>
      (\<exists>argv_copy argv_copy2 s'. marshaler p argv s = Inr (argv_copy, argv_copy2, s')
         \<and> lc_all s' = lc_all s))
   \<and> (\<not> decodes p argv \<longrightarrow>
      (\<exists>s'. marshaler p argv s = Inl (Exited 1, s') \<and> lc_all s' = native_locale p))"
proof (intro conjI impI)
  assume "decodes p argv"
  from marshaler_ok[OF this, of s]
  show "\<exists>argv_copy argv_copy2 s'. marshaler p argv s = Inr (argv_copy, argv_copy2, s')
         \<and> lc_all s' = lc_all s"
    by blast
next
  assume "\<not> decodes p argv"
  then obtain k where "first_failure p argv k" using decodes_or_first_failure by blast
  from marshaler_fail[OF this, of s]
  show "\<exists>s'. marshaler p argv s = Inl (Exited 1, s') \<and> lc_all s' = native_locale p"
    by blast
qed

theorem marshaler_locale_witness:
  "(\<exists>argv_copy argv_copy2 s'.
      marshaler demo_platform [''python'', ''-c'', ''pass''] (startup demo_env)
        = Inr (argv_copy, argv_copy2, s') \<and> lc_all s' = ''C'')
   \<and> (\<exists>s'. marshaler demo_platform [''python'', [CHR 0xFF]] (startup demo_env)
        = Inl (Exited 1, s') \<and> lc_all s' = ''en_US.UTF-8'')"
proof -
  have d: "decodes demo_platform [''python'', ''-c'', ''pass'']"
    by (simp add: decodes_def demo_platform_def)
  have nd: "\<not> decodes demo_platform [''python'', [CHR 0xFF]]"
    by (simp add: decodes_def demo_platform_def)
  have l: "lc_all (startup demo_env) = ''C''" by (simp add: startup_def)
  have n: "native_locale demo_platform = ''en_US.UTF-8''" by (simp add: demo_platform_def)
  from marshaler_locale[of demo_platform "[''python'', ''-c'', ''pass'']" "startup demo_env"] d
  have 1: "\<exists>argv_copy argv_copy2 s'.
      marshaler demo_platform [''python'', ''-c'', ''pass''] (startup demo_env)
        = Inr (argv_copy, argv_copy2, s') \<and> lc_all s' = lc_all (startup demo_env)"
    by blast
  from marshaler_locale[of demo_platform "[''python'', [CHR 0xFF]]" "startup demo_env"] nd
  have 2: "\<exists>s'. marshaler demo_platform [''python'', [CHR 0xFF]] (startup demo_env)
        = Inl (Exited 1, s') \<and> lc_all s' = native_locale demo_platform"
    by blast
  from 1 2 show ?thesis unfolding l n by blast
qed

text \<open>
  The claim as written also promises the restoration on the failing path. It does not
  happen: started under \<^verbatim>\<open>"C"\<close> with a second argument that does not decode, the
  marshaler ends the process under the native locale.
\<close>

theorem locale_not_restored_counterexample:
  "isl (marshaler demo_platform [''python'', [CHR 0xFF]] (startup demo_env))
   \<and> lc_all (marshaler_state (marshaler demo_platform [''python'', [CHR 0xFF]] (startup demo_env)))
       = ''en_US.UTF-8''
   \<and> lc_all (startup demo_env) = ''C''"
proof -
  have "first_failure demo_platform [''python'', [CHR 0xFF]] 1"
    by (simp add: first_failure_def demo_platform_def)
  from marshaler_fail[OF this, of "startup demo_env"]
  obtain s' where "marshaler demo_platform [''python'', [CHR 0xFF]] (startup demo_env)
                     = Inl (Exited 1, s')"
    and "lc_all s' = native_locale demo_platform"
    by blast
  then show ?thesis
    by (simp add: marshaler_state_def demo_platform_def startup_def)
qed

subsection \<open>C1: the search path and the order of the bootstrap calls\<close>




subsection \<open>C9: the statement for the library directory\<close>

text \<open>
  Claim C9, as amended. In a run whose library loads, whatever library that is, the
  fifth statement submitted is the first 255 characters of
  \<^verbatim>\<open>sys.path.append('U/lib/python3.8/site-packages')\<close> for the unpack root \<open>U\<close>, with
  the version component the literal \<^verbatim>\<open>python3.8\<close>; it is that whole string when \<open>U\<close> has
  at most 208 characters.
\<close>

theorem lib_path_statement:
  assumes "env0 ''ANDROID_ARGUMENT'' = Some a" and "loads p env0 h"
    and "unpack_root env0 = Some U"
  shows "length (statements (calls (snd (main p argv env0)))) = 6
     \<and> fst (statements (calls (snd (main p argv env0))) ! 4)
         = take 255 (''sys.path.append('' @ [CHR 0x27] @ U @ ''/lib/python3.8/site-packages')'')
     \<and> (length U \<le> 208 \<longrightarrow>
          fst (statements (calls (snd (main p argv env0))) ! 4)
            = ''sys.path.append('' @ [CHR 0x27] @ U @ ''/lib/python3.8/site-packages')'')"
proof -
  from main_statements[OF assms(1,2), of argv]
  obtain u r0 r1 r2 r3 r4 r5 where u: "unpack_root env0 = Some u"
    and st: "statements (calls (snd (main p argv env0))) =
         [(''import sys, posix\<newline>'', r0), (preamble, r1), (add_prefix u, r2),
          (add_site_packages_dir (python_bundle_dir u), r3), (add_lib_path u, r4),
          (''sys.path = ['.'] + sys.path'', r5)]"
    by blast
  have uU: "u = U" using u assms(3) by simp
  have len: "length (statements (calls (snd (main p argv env0)))) = 6"
    unfolding st by simp
  have nth: "fst (statements (calls (snd (main p argv env0))) ! 4) = add_lib_path U"
    unfolding st uU by simp
  have tk: "add_lib_path U
      = take 255 (''sys.path.append('' @ [CHR 0x27] @ U @ ''/lib/python3.8/site-packages')'')"
    by (simp add: add_lib_path_def snprintf_def)
  have fit: "length U \<le> 208 \<longrightarrow> add_lib_path U
      = ''sys.path.append('' @ [CHR 0x27] @ U @ ''/lib/python3.8/site-packages')''"
    using fits_lib[of U] by blast
  show ?thesis
    unfolding nth using len tk fit by blast
qed

theorem lib_path_statement_witness:
  "length (statements (calls (snd (main demo_platform [''python''] demo_env)))) = 6
   \<and> fst (statements (calls (snd (main demo_platform [''python''] demo_env))) ! 4)
       = ''sys.path.append('/data/app-root/lib/python3.8/site-packages')''"
proof -
  have a: "demo_env ''ANDROID_ARGUMENT'' = Some ''/data/app-root''"
    by (simp add: demo_env_def)
  have l: "loads demo_platform demo_env 1"
    by (simp add: loads_def demo_platform_def demo_env_def)
  have u: "unpack_root demo_env = Some ''/data/app-root''"
    by (simp add: unpack_root_def demo_env_def)
  from lib_path_statement[of demo_env "''/data/app-root''" demo_platform 1 "''/data/app-root''"
      "[''python'']", OF a l u]
  show ?thesis by simp
qed

text \<open>
  For every unpack root the claim fails: with 209 characters the formatted statement has
  256, and the statement submitted has lost its closing parenthesis.
\<close>

theorem lib_path_truncated_counterexample:
  "''sys.path.append('' @ [CHR 0x27] @ unpack_209 @ ''/lib/python3.8/site-packages'' @ [CHR 0x27]
     \<in> set (map fst (statements (calls (snd (main demo_platform [''python''] env_209)))))
   \<and> ''sys.path.append('' @ [CHR 0x27] @ unpack_209 @ ''/lib/python3.8/site-packages')''
     \<notin> set (map fst (statements (calls (snd (main demo_platform [''python''] env_209)))))
   \<and> fst (main demo_platform [''python''] env_209) = Exited 7"
  by (simp add: main_def run_def startup_def resolver_def setenv_def getenv_def demo_env_def
        env_209_def unpack_209_def statements_def preamble_def
        demo_platform_def loader_def symbols_def path_builder_def call_def pyDecodeLocale_def
        note_call_def pySimpleString_def Let_def marshaler_def setlocale_def marshal_loop.simps
        invoker_def pyMain_def dlclose_def paths_def python_bundle_dir_def snprintf_def wide_def
        add_lib_path_def add_prefix_def add_site_packages_dir_def)

subsection \<open>C10: the five buffers hold at most 255 characters\<close>

text \<open>
  Claim C10. Each of the five formatted strings (bundle directory, search path, prefix
  statement, the two site-packages statements) has at most 255 characters and is the
  first 255 characters of its formatted text; it equals the formatted text exactly when
  that text has at most 255 characters. For every unpack root, however long, the path
  builder goes on with these strings, writes nothing to standard error, hands the search
  path to the decoder and submits the three statements as they are.
\<close>

theorem buffers_are_truncated:
  "length (python_bundle_dir u) \<le> 255
   \<and> length (paths (python_bundle_dir u)) \<le> 255
   \<and> length (add_prefix u) \<le> 255
   \<and> length (add_site_packages_dir (python_bundle_dir u)) \<le> 255
   \<and> length (add_lib_path u) \<le> 255
   \<and> python_bundle_dir u = take 255 (u @ ''/_python_bundle'')
   \<and> paths b = take 255 (b @ ''/stdlib.zip:'' @ b @ ''/modules'')
   \<and> add_prefix u = take 255 (''sys.prefix = '' @ [CHR 0x27] @ u @ [CHR 0x27])
   \<and> add_site_packages_dir b
       = take 255 (''sys.path.append('' @ [CHR 0x27] @ b @ ''/site-packages')'')
   \<and> add_lib_path u
       = take 255 (''sys.path.append('' @ [CHR 0x27] @ u @ ''/lib/python3.8/site-packages')'')
   \<and> ((python_bundle_dir u = u @ ''/_python_bundle'')
        = (length (u @ ''/_python_bundle'') \<le> 255))
   \<and> ((paths (python_bundle_dir u)
         = (u @ ''/_python_bundle'') @ ''/stdlib.zip:'' @ (u @ ''/_python_bundle'') @ ''/modules'')
        = (length ((u @ ''/_python_bundle'') @ ''/stdlib.zip:''
                     @ (u @ ''/_python_bundle'') @ ''/modules'') \<le> 255))
   \<and> ((add_prefix u = ''sys.prefix = '' @ [CHR 0x27] @ u @ [CHR 0x27])
        = (length (''sys.prefix = '' @ [CHR 0x27] @ u @ [CHR 0x27]) \<le> 255))
   \<and> ((add_site_packages_dir (python_bundle_dir u)
         = ''sys.path.append('' @ [CHR 0x27] @ (u @ ''/_python_bundle'') @ ''/site-packages')'')
        = (length (''sys.path.append('' @ [CHR 0x27] @ (u @ ''/_python_bundle'')
                     @ ''/site-packages')'') \<le> 255))
   \<and> ((add_lib_path u
         = ''sys.path.append('' @ [CHR 0x27] @ u @ ''/lib/python3.8/site-packages')'')
        = (length (''sys.path.append('' @ [CHR 0x27] @ u @ ''/lib/python3.8/site-packages')'')
             \<le> 255))
   \<and> (environ s ''ANDROID_UNPACK'' = Some u \<longrightarrow>
        (\<exists>s'. path_builder p s = Inr s' \<and> err s' = err s
           \<and> map fst (statements (drop (length (calls s)) (calls s')))
               = [''import sys, posix\<newline>'', preamble, add_prefix u,
                  add_site_packages_dir (python_bundle_dir u), add_lib_path u,
                  ''sys.path = ['.'] + sys.path'']
           \<and> DecodeLocale (paths (python_bundle_dir u))
                (decode_result p (lc_all (call p (SetProgramName (wide ''android_python'')) s))
                   (paths (python_bundle_dir u)))
               \<in> set (calls s')))"
proof -
  have l1: "length (python_bundle_dir u) \<le> 255"
    unfolding python_bundle_dir_def by (rule snprintf_length)
  have l2: "length (paths (python_bundle_dir u)) \<le> 255"
    unfolding paths_def by (rule snprintf_length)
  have l3: "length (add_prefix u) \<le> 255"
    unfolding add_prefix_def by (rule snprintf_length)
  have l4: "length (add_site_packages_dir (python_bundle_dir u)) \<le> 255"
    unfolding add_site_packages_dir_def by (rule snprintf_length)
  have l5: "length (add_lib_path u) \<le> 255"
    unfolding add_lib_path_def by (rule snprintf_length)
  have t1: "python_bundle_dir u = take 255 (u @ ''/_python_bundle'')"
    by (simp add: python_bundle_dir_def snprintf_def)
  have t2: "paths b = take 255 (b @ ''/stdlib.zip:'' @ b @ ''/modules'')"
    by (simp add: paths_def snprintf_def)
  have t3: "add_prefix u = take 255 (''sys.prefix = '' @ [CHR 0x27] @ u @ [CHR 0x27])"
    by (simp add: add_prefix_def snprintf_def)
  have t4: "add_site_packages_dir b
       = take 255 (''sys.path.append('' @ [CHR 0x27] @ b @ ''/site-packages')'')"
    by (simp add: add_site_packages_dir_def snprintf_def)
  have t5: "add_lib_path u
       = take 255 (''sys.path.append('' @ [CHR 0x27] @ u @ ''/lib/python3.8/site-packages')'')"
    by (simp add: add_lib_path_def snprintf_def)
  have e1: "(python_bundle_dir u = u @ ''/_python_bundle'')
        = (length (u @ ''/_python_bundle'') \<le> 255)"
    unfolding python_bundle_dir_def by (rule snprintf_fits)
  have e3: "(add_prefix u = ''sys.prefix = '' @ [CHR 0x27] @ u @ [CHR 0x27])
        = (length (''sys.prefix = '' @ [CHR 0x27] @ u @ [CHR 0x27]) \<le> 255)"
    unfolding add_prefix_def by (rule snprintf_fits)
  have e5: "(add_lib_path u
         = ''sys.path.append('' @ [CHR 0x27] @ u @ ''/lib/python3.8/site-packages')'')
        = (length (''sys.path.append('' @ [CHR 0x27] @ u @ ''/lib/python3.8/site-packages')'')
             \<le> 255)"
    unfolding add_lib_path_def by (rule snprintf_fits)
  have e2: "(paths (python_bundle_dir u)
         = (u @ ''/_python_bundle'') @ ''/stdlib.zip:'' @ (u @ ''/_python_bundle'') @ ''/modules'')
        = (length ((u @ ''/_python_bundle'') @ ''/stdlib.zip:''
                     @ (u @ ''/_python_bundle'') @ ''/modules'') \<le> 255)"
  proof (cases "length u \<le> 102")
    case True
    then show ?thesis by (simp add: fits_paths)
  next
    case False
    then have "length (paths (python_bundle_dir u))
        \<noteq> length ((u @ ''/_python_bundle'') @ ''/stdlib.zip:''
                     @ (u @ ''/_python_bundle'') @ ''/modules'')"
      using l2 by simp
    then have "paths (python_bundle_dir u)
        \<noteq> (u @ ''/_python_bundle'') @ ''/stdlib.zip:'' @ (u @ ''/_python_bundle'') @ ''/modules''"
      by metis
    then show ?thesis using False by simp
  qed
  have e4: "(add_site_packages_dir (python_bundle_dir u)
         = ''sys.path.append('' @ [CHR 0x27] @ (u @ ''/_python_bundle'') @ ''/site-packages')'')
        = (length (''sys.path.append('' @ [CHR 0x27] @ (u @ ''/_python_bundle'')
                     @ ''/site-packages')'') \<le> 255)"
  proof (cases "length u \<le> 207")
    case True
    then show ?thesis by (simp add: fits_site)
  next
    case False
    then have "length (add_site_packages_dir (python_bundle_dir u))
        \<noteq> length (''sys.path.append('' @ [CHR 0x27] @ (u @ ''/_python_bundle'')
                     @ ''/site-packages')'')"
      using l4 by simp
    then have "add_site_packages_dir (python_bundle_dir u)
        \<noteq> ''sys.path.append('' @ [CHR 0x27] @ (u @ ''/_python_bundle'') @ ''/site-packages')''"
      by metis
    then show ?thesis using False by simp
  qed
  have pb: "environ s ''ANDROID_UNPACK'' = Some u \<longrightarrow>
        (\<exists>s'. path_builder p s = Inr s' \<and> err s' = err s
           \<and> map fst (statements (drop (length (calls s)) (calls s')))
               = [''import sys, posix\<newline>'', preamble, add_prefix u,
                  add_site_packages_dir (python_bundle_dir u), add_lib_path u,
                  ''sys.path = ['.'] + sys.path'']
           \<and> DecodeLocale (paths (python_bundle_dir u))
                (decode_result p (lc_all (call p (SetProgramName (wide ''android_python'')) s))
                   (paths (python_bundle_dir u)))
               \<in> set (calls s'))"
    by (simp add: path_builder_def getenv_def call_def pyDecodeLocale_def note_call_def
        pySimpleString_def Let_def statements_def)
  show ?thesis
    using l1 l2 l3 l4 l5 t1 t2 t3 t4 t5 e1 e2 e3 e4 e5 pb by (simp only: simp_thms)
qed

theorem buffers_are_truncated_witness:
  "length (add_lib_path unpack_209) \<le> 255
   \<and> add_lib_path unpack_209
       \<noteq> ''sys.path.append('' @ [CHR 0x27] @ unpack_209 @ ''/lib/python3.8/site-packages')''
   \<and> paths (python_bundle_dir ''/data/app-root'')
       = ''/data/app-root/_python_bundle/stdlib.zip:/data/app-root/_python_bundle/modules''
   \<and> (\<exists>s'. path_builder demo_platform (startup env_209) = Inr s' \<and> err s' = [])"
proof -
  note t = buffers_are_truncated[of unpack_209 "python_bundle_dir unpack_209" "startup env_209"
      demo_platform]
  note t2 = buffers_are_truncated[of "''/data/app-root''" "python_bundle_dir ''/data/app-root''"
      "startup demo_env" demo_platform]
  have e: "environ (startup env_209) ''ANDROID_UNPACK'' = Some unpack_209"
    by (simp add: startup_def env_209_def)
  have n: "\<not> length (''sys.path.append('' @ [CHR 0x27] @ unpack_209
                 @ ''/lib/python3.8/site-packages')'') \<le> 255"
    by (simp add: unpack_209_def)
  have m: "length ((''/data/app-root'' @ ''/_python_bundle'') @ ''/stdlib.zip:''
                     @ (''/data/app-root'' @ ''/_python_bundle'') @ ''/modules'') \<le> 255"
    by simp
  have 1: "length (add_lib_path unpack_209) \<le> 255" using t by blast
  have 2: "add_lib_path unpack_209
       \<noteq> ''sys.path.append('' @ [CHR 0x27] @ unpack_209 @ ''/lib/python3.8/site-packages')''"
    using t n by blast
  have "paths (python_bundle_dir ''/data/app-root'')
       = (''/data/app-root'' @ ''/_python_bundle'') @ ''/stdlib.zip:''
                     @ (''/data/app-root'' @ ''/_python_bundle'') @ ''/modules''"
    using t2 m by blast
  then have 3: "paths (python_bundle_dir ''/data/app-root'')
       = ''/data/app-root/_python_bundle/stdlib.zip:/data/app-root/_python_bundle/modules''"
    by simp
  have "\<exists>s'. path_builder demo_platform (startup env_209) = Inr s'
          \<and> err s' = err (startup env_209)"
    using t e by blast
  then have 4: "\<exists>s'. path_builder demo_platform (startup env_209) = Inr s' \<and> err s' = []"
    by (simp add: startup_def)
  show ?thesis using 1 2 3 4 by blast
qed

end
